theory Spec2Isabelle
  imports Main "HOL-Library.Char_ord" "HOL-Library.List_Lexorder" "HOL-Library.AList"
begin

section \<open>The Go library functions the program calls\<close>

text \<open>
  The program is \<^verbatim>\<open>src/main.go\<close>: the function \<^verbatim>\<open>IsRootDir\<close>, the function
  \<^verbatim>\<open>ZkRoot\<close> and the body of the \<^verbatim>\<open>mv\<close> command in \<^verbatim>\<open>main\<close>. The build modelled
  is the one where \<^verbatim>\<open>runtime.GOOS\<close> is not \<^verbatim>\<open>"windows"\<close>: the path separator is the
  slash and \<^verbatim>\<open>filepath.VolumeName\<close> is the empty string.

  A Go string is a byte sequence: \<^typ>\<open>string\<close>. The functions of this section are not
  sources of the repository; they follow the documentation and the sources of the Go
  packages \<^verbatim>\<open>strings\<close> and \<^verbatim>\<open>path/filepath\<close>.
\<close>

definition sep :: char where
  "sep = CHR ''/''"

text \<open>\<^verbatim>\<open>strings.HasSuffix(s, suffix)\<close> and \<^verbatim>\<open>strings.TrimSuffix(s, suffix)\<close>.\<close>

definition HasSuffix :: "string \<Rightarrow> string \<Rightarrow> bool" where
  "HasSuffix s suffix =
     (length suffix \<le> length s \<and> drop (length s - length suffix) s = suffix)"

definition TrimSuffix :: "string \<Rightarrow> string \<Rightarrow> string" where
  "TrimSuffix s suffix =
     (if HasSuffix s suffix then take (length s - length suffix) s else s)"

text \<open>
  \<^verbatim>\<open>strings.LastIndex(s, string(os.PathSeparator))\<close>: the index of the last separator
  byte of \<open>s\<close>. Go returns \<open>-1\<close> when there is none; that value is \<open>None\<close> here.
\<close>

fun LastIndex :: "string \<Rightarrow> char \<Rightarrow> nat option" where
  "LastIndex [] c = None"
| "LastIndex (x # xs) c =
     (case LastIndex xs c of
        Some i \<Rightarrow> Some (Suc i)
      | None \<Rightarrow> if x = c then Some 0 else None)"

text \<open>
  The slice expression \<^verbatim>\<open>s[n:]\<close>. Go panics with a slice-bounds run-time error when
  \<open>n\<close> is larger than the length of \<open>s\<close>.
\<close>

datatype panic = SliceBoundsOutOfRange nat nat | NilPointerDereference

definition sliceFrom :: "string \<Rightarrow> nat \<Rightarrow> panic + string" where
  "sliceFrom s n =
     (if n \<le> length s then Inr (drop n s) else Inl (SliceBoundsOutOfRange n (length s)))"

text \<open>\<^verbatim>\<open>strings.Split(s, "/")\<close>: the fields between the separators, one more than
  there are separators.\<close>

fun Split :: "string \<Rightarrow> string list" where
  "Split [] = [[]]"
| "Split (x # xs) =
     (if x = sep then [] # Split xs
      else (case Split xs of f # fs \<Rightarrow> (x # f) # fs | [] \<Rightarrow> [[x]]))"

text \<open>\<^verbatim>\<open>strings.Join(elems, "/")\<close>.\<close>

fun joinSep :: "string list \<Rightarrow> string" where
  "joinSep [] = []"
| "joinSep [e] = e"
| "joinSep (e # es) = e @ sep # joinSep es"

text \<open>
  \<^verbatim>\<open>filepath.Clean\<close>, by the rules of its documentation: runs of separators count as
  one, every \<^verbatim>\<open>.\<close> element goes, every inner \<^verbatim>\<open>..\<close> element goes with the element
  before it, a \<^verbatim>\<open>..\<close> element that begins a rooted path goes, and the empty result
  is \<^verbatim>\<open>.\<close>. The elements kept so far are held in reverse.
\<close>

fun cleanElems :: "bool \<Rightarrow> string list \<Rightarrow> string list \<Rightarrow> string list" where
  "cleanElems rooted kept [] = rev kept"
| "cleanElems rooted kept (e # es) =
     (if e = [] \<or> e = ''.'' then cleanElems rooted kept es
      else if e = ''..'' then
        (case kept of
           k # ks \<Rightarrow>
             if k = ''..'' then cleanElems rooted (e # kept) es
             else cleanElems rooted ks es
         | [] \<Rightarrow>
             if rooted then cleanElems rooted kept es
             else cleanElems rooted (e # kept) es)
      else cleanElems rooted (e # kept) es)"

definition Clean :: "string \<Rightarrow> string" where
  "Clean path =
     (if path = [] then ''.''
      else
        (let rooted = (hd path = sep);
             out = (if rooted then [sep] else []) @ joinSep (cleanElems rooted [] (Split path))
         in if out = [] then ''.'' else out))"

text \<open>\<^verbatim>\<open>filepath.Join(elem...)\<close>: the elements from the first non-empty one on, joined
  by separators and cleaned; the empty string when every element is empty.\<close>

fun Join :: "string list \<Rightarrow> string" where
  "Join [] = []"
| "Join (e # es) = (if e = [] then Join es else Clean (joinSep (e # es)))"

text \<open>\<^verbatim>\<open>filepath.Base(path)\<close>: the last element, trailing separators removed first.\<close>

definition Base :: "string \<Rightarrow> string" where
  "Base path =
     (if path = [] then ''.''
      else
        (let p = rev (dropWhile (\<lambda>c. c = sep) (rev path));
             b = rev (takeWhile (\<lambda>c. c \<noteq> sep) (rev p))
         in if b = [] then [sep] else b))"

text \<open>\<^verbatim>\<open>filepath.Dir(path)\<close>: everything up to and including the last separator,
  cleaned.\<close>

definition Dir :: "string \<Rightarrow> string" where
  "Dir path = Clean (rev (dropWhile (\<lambda>c. c \<noteq> sep) (rev path)))"

section \<open>The file system\<close>

text \<open>
  The operating system is not part of the repository either. A file system is a table
  from absolute paths, held as the list of their elements (the root directory is the
  empty list), to entries: a regular file with its read and write permission and its
  bytes, or a directory with its read permission. There are no symbolic links, so a
  \<^verbatim>\<open>..\<close> element is resolved on the text of the path; a relative path is resolved
  from the working directory of the process; the empty path names nothing.
\<close>

type_synonym key = "string list"

datatype entry = Regular bool bool string | Directory bool

type_synonym filesys = "(key \<times> entry) list"

datatype errno = ENOENT | ENOTDIR | EACCES | EISDIR | EEXIST | EINVAL | EBUSY

text \<open>
  A Go \<^verbatim>\<open>error\<close> value: \<^verbatim>\<open>errors.New(text)\<close>, an \<^verbatim>\<open>*fs.PathError\<close> (operation, path,
  cause), an \<^verbatim>\<open>*os.LinkError\<close> (operation, old path, new path, cause), or an error of
  the HTML library.
\<close>

datatype error =
    ErrorsNew string
  | PathError string string errno
  | LinkError string string string errno
  | HtmlError string

definition strerror :: "errno \<Rightarrow> string" where
  "strerror e =
     (case e of
        ENOENT \<Rightarrow> ''no such file or directory''
      | ENOTDIR \<Rightarrow> ''not a directory''
      | EACCES \<Rightarrow> ''permission denied''
      | EISDIR \<Rightarrow> ''is a directory''
      | EEXIST \<Rightarrow> ''file exists''
      | EINVAL \<Rightarrow> ''invalid argument''
      | EBUSY \<Rightarrow> ''device or resource busy'')"

text \<open>The method \<^verbatim>\<open>err.Error()\<close>.\<close>

definition Error :: "error \<Rightarrow> string" where
  "Error err =
     (case err of
        ErrorsNew s \<Rightarrow> s
      | PathError op path e \<Rightarrow> op @ '' '' @ path @ '': '' @ strerror e
      | LinkError op old new e \<Rightarrow> op @ '' '' @ old @ '' '' @ new @ '': '' @ strerror e
      | HtmlError s \<Rightarrow> s)"

text \<open>\<^verbatim>\<open>errors.Is(err, os.ErrNotExist)\<close>: true of a system error whose cause is
  \<^verbatim>\<open>ENOENT\<close> and of no other cause (\<^verbatim>\<open>ENOTDIR\<close> is not one).\<close>

definition IsNotExist :: "error \<Rightarrow> bool" where
  "IsNotExist err =
     (case err of
        PathError op path e \<Rightarrow> e = ENOENT
      | LinkError op old new e \<Rightarrow> e = ENOENT
      | _ \<Rightarrow> False)"

text \<open>The key a path names, for a process whose working directory is \<open>cwd\<close>.\<close>

definition keyOf :: "string \<Rightarrow> string \<Rightarrow> key option" where
  "keyOf cwd path =
     (if path = [] then None
      else if hd path = sep then Some (cleanElems True [] (Split path))
      else Some (cleanElems True [] (Split cwd @ Split path)))"

definition isFile :: "entry option \<Rightarrow> bool" where
  "isFile e = (case e of Some (Regular r w b) \<Rightarrow> True | _ \<Rightarrow> False)"

definition isDir :: "entry option \<Rightarrow> bool" where
  "isDir e = (case e of Some (Directory r) \<Rightarrow> True | _ \<Rightarrow> False)"

text \<open>The cause reported for a path that names no entry: \<^verbatim>\<open>ENOTDIR\<close> when the path
  runs through a regular file, \<^verbatim>\<open>ENOENT\<close> otherwise.\<close>

definition missing :: "filesys \<Rightarrow> key \<Rightarrow> errno" where
  "missing fs k =
     (if list_ex (\<lambda>n. isFile (map_of fs (take n k))) [0..<length k] then ENOTDIR else ENOENT)"

text \<open>\<^verbatim>\<open>os.Stat(name)\<close> and \<^verbatim>\<open>os.Lstat(name)\<close> (the same without symbolic links).\<close>

definition Stat :: "filesys \<Rightarrow> string \<Rightarrow> string \<Rightarrow> error + entry" where
  "Stat fs cwd name =
     (case keyOf cwd name of
        None \<Rightarrow> Inl (PathError ''stat'' name ENOENT)
      | Some k \<Rightarrow>
          (case map_of fs k of
             Some e \<Rightarrow> Inr e
           | None \<Rightarrow> Inl (PathError ''stat'' name (missing fs k))))"

text \<open>\<^verbatim>\<open>os.Open(name)\<close>: an open file, which is the bytes of a regular file or a
  directory; reading a directory fails, as \<^verbatim>\<open>read(2)\<close> does.\<close>

datatype osFile = FileHandle string | DirHandle

definition Open :: "filesys \<Rightarrow> string \<Rightarrow> string \<Rightarrow> error + osFile" where
  "Open fs cwd name =
     (case keyOf cwd name of
        None \<Rightarrow> Inl (PathError ''open'' name ENOENT)
      | Some k \<Rightarrow>
          (case map_of fs k of
             Some (Regular r w b) \<Rightarrow>
               if r then Inr (FileHandle b) else Inl (PathError ''open'' name EACCES)
           | Some (Directory r) \<Rightarrow>
               if r then Inr DirHandle else Inl (PathError ''open'' name EACCES)
           | None \<Rightarrow> Inl (PathError ''open'' name (missing fs k))))"

definition ReadAll :: "string \<Rightarrow> osFile \<Rightarrow> error + string" where
  "ReadAll name f =
     (case f of
        FileHandle b \<Rightarrow> Inr b
      | DirHandle \<Rightarrow> Inl (PathError ''read'' name EISDIR))"

text \<open>
  \<^verbatim>\<open>ioutil.WriteFile(name, data, 0777)\<close>: opens for writing, creating or truncating,
  and writes the data. The permission argument counts only when the file is created.
\<close>

definition WriteFile :: "filesys \<Rightarrow> string \<Rightarrow> string \<Rightarrow> string \<Rightarrow> error option \<times> filesys" where
  "WriteFile fs cwd name data =
     (case keyOf cwd name of
        None \<Rightarrow> (Some (PathError ''open'' name ENOENT), fs)
      | Some k \<Rightarrow>
          (case map_of fs k of
             Some (Regular r w b) \<Rightarrow>
               if w then (None, AList.update k (Regular r w data) fs)
               else (Some (PathError ''open'' name EACCES), fs)
           | Some (Directory r) \<Rightarrow> (Some (PathError ''open'' name EISDIR), fs)
           | None \<Rightarrow>
               if k \<noteq> [] \<and> isDir (map_of fs (butlast k))
               then (None, AList.update k (Regular True True data) fs)
               else (Some (PathError ''open'' name (missing fs k)), fs)))"

text \<open>
  \<^verbatim>\<open>os.Rename(oldpath, newpath)\<close>. Go refuses a new path that is a directory before
  it calls \<^verbatim>\<open>rename(2)\<close>; \<^verbatim>\<open>rename(2)\<close> needs the old entry and the directory that
  will hold the new one, replaces a regular file at the new path, and moves a directory
  with everything below it, though never into itself.
\<close>

definition atOrUnder :: "key \<Rightarrow> key \<Rightarrow> bool" where
  "atOrUnder r k = (take (length r) k = r)"

definition rekey :: "key \<Rightarrow> key \<Rightarrow> key \<times> entry \<Rightarrow> key \<times> entry" where
  "rekey old new ke =
     (if atOrUnder old (fst ke) then (new @ drop (length old) (fst ke), snd ke) else ke)"

definition Rename :: "filesys \<Rightarrow> string \<Rightarrow> string \<Rightarrow> string \<Rightarrow> error + filesys" where
  "Rename fs cwd oldpath newpath =
     (case keyOf cwd oldpath of
        None \<Rightarrow> Inl (LinkError ''rename'' oldpath newpath ENOENT)
      | Some old \<Rightarrow>
          (case keyOf cwd newpath of
             None \<Rightarrow> Inl (LinkError ''rename'' oldpath newpath ENOENT)
           | Some new \<Rightarrow>
               (case map_of fs old of
                  None \<Rightarrow> Inl (LinkError ''rename'' oldpath newpath (missing fs old))
                | Some e \<Rightarrow>
                    if isDir (map_of fs new)
                    then Inl (LinkError ''rename'' oldpath newpath EEXIST)
                    else if old = [] then Inl (LinkError ''rename'' oldpath newpath EBUSY)
                    else if \<not> isDir (map_of fs (butlast new))
                    then Inl (LinkError ''rename'' oldpath newpath (missing fs new))
                    else if old = new then Inr fs
                    else if isDir (Some e) \<and> isFile (map_of fs new)
                    then Inl (LinkError ''rename'' oldpath newpath ENOTDIR)
                    else if isDir (Some e) \<and> atOrUnder old new
                    then Inl (LinkError ''rename'' oldpath newpath EINVAL)
                    else Inr (map (rekey old new) (filter (\<lambda>ke. fst ke \<noteq> new) fs)))))"

section \<open>Documents\<close>

text \<open>
  The HTML library (\<^verbatim>\<open>goquery\<close> over \<^verbatim>\<open>golang.org/x/net/html\<close>) is outside the
  repository as well. A parsed document is the list of the children of its document
  node; a node is an element with its tag, its attributes in order and its children, or
  a node of another kind (text, comment, doctype) with its data. The parser and the
  serialiser are parameters: \<open>parse\<close> is what \<^verbatim>\<open>goquery.NewDocumentFromReader\<close> makes
  of the bytes read, \<open>render\<close> is \<^verbatim>\<open>Html()\<close> on the document.
\<close>

type_synonym attrs = "(string \<times> string) list"

datatype node = Element string attrs "node list" | Other string

record htmllib =
  parse :: "string \<Rightarrow> error + node list"
  render :: "node list \<Rightarrow> error + string"

text \<open>\<^verbatim>\<open>elem.Attr(name)\<close>: the value of the first attribute of that name and
  \<^verbatim>\<open>true\<close>, or the empty string and \<^verbatim>\<open>false\<close>.\<close>

definition Attr :: "attrs \<Rightarrow> string \<Rightarrow> string \<times> bool" where
  "Attr elem name = (case map_of elem name of Some v \<Rightarrow> (v, True) | None \<Rightarrow> ([], False))"

text \<open>\<^verbatim>\<open>elem.SetAttr(name, val)\<close>: sets the first attribute of that name, or appends
  one.\<close>

definition SetAttr :: "attrs \<Rightarrow> string \<Rightarrow> string \<Rightarrow> attrs" where
  "SetAttr elem name val = AList.update name val elem"

section \<open>The program\<close>

definition ZK_ROOT_FILENAME :: string where
  "ZK_ROOT_FILENAME = ''.zk-root''"

text \<open>\<^verbatim>\<open>IsRootDir(path)\<close>, in a build where \<^verbatim>\<open>runtime.GOOS\<close> is not \<^verbatim>\<open>"windows"\<close>.\<close>

definition IsRootDir :: "string \<Rightarrow> bool" where
  "IsRootDir path = (path = ''/'')"

text \<open>
  \<^verbatim>\<open>ZkRoot(desiredPath)\<close>. The file system and the working directory of the process
  (against which \<^verbatim>\<open>os.Stat\<close> resolves a relative path) are arguments. The recursive
  call is on a strictly shorter string.
\<close>

function ZkRoot :: "filesys \<Rightarrow> string \<Rightarrow> string \<Rightarrow> error + string" where
  "ZkRoot fs cwd desiredPath =
     (let zkPath = Join [desiredPath, ZK_ROOT_FILENAME] in
      case Stat fs cwd zkPath of
        Inl err \<Rightarrow>
          if IsNotExist err then
            if IsRootDir desiredPath then Inl (ErrorsNew ''.zk-root cannot be found'')
            else
              (case LastIndex desiredPath sep of
                 None \<Rightarrow> Inl (ErrorsNew ''.zk-root cannot be found'')
               | Some lastSeparatorIndex \<Rightarrow>
                   ZkRoot fs cwd (take lastSeparatorIndex desiredPath))
          else Inr desiredPath
      | Inr info \<Rightarrow> Inr desiredPath)"
  by pat_completeness auto
termination
proof (relation "measure (\<lambda>(fs, cwd, desiredPath). length desiredPath)")
  show "wf (measure (\<lambda>(fs, cwd, desiredPath). length desiredPath))"
    by simp
next
  fix fs :: filesys and cwd desiredPath :: string and lastSeparatorIndex :: nat
  assume "LastIndex desiredPath sep = Some lastSeparatorIndex"
  moreover have "LastIndex s c = Some i \<Longrightarrow> i < length s" for s c i
    by (induction s arbitrary: i) (auto split: option.splits if_splits)
  ultimately have "lastSeparatorIndex < length desiredPath"
    by blast
  then show "((fs, cwd, take lastSeparatorIndex desiredPath), (fs, cwd, desiredPath))
      \<in> measure (\<lambda>(fs, cwd, desiredPath). length desiredPath)"
    by simp
qed

declare ZkRoot.simps [simp del]

subsection \<open>The rewrite of one document\<close>

text \<open>
  The test of the function passed to \<^verbatim>\<open>Each\<close> (lines 158 to 161): the three forms
  under which an \<open>href\<close> refers to \<^verbatim>\<open>zkRelativeFromPath\<close>.
\<close>

definition hrefMatches :: "string \<Rightarrow> string \<Rightarrow> bool" where
  "hrefMatches zkRelativeFromPath href =
     (let hrefMatchesDirectoryIndex =
            (Base zkRelativeFromPath = ''index.html'' \<and> href = Dir zkRelativeFromPath);
          hrefMatchesPageWithoutExtension =
            (HasSuffix zkRelativeFromPath ''.html'' \<and>
             href = take (length zkRelativeFromPath - 5) zkRelativeFromPath)
      in href = zkRelativeFromPath \<or> hrefMatchesDirectoryIndex \<or>
         hrefMatchesPageWithoutExtension)"

text \<open>The function passed to \<^verbatim>\<open>Each\<close>, on the attributes of one anchor: whether it
  set \<^verbatim>\<open>foundReference\<close>, and the attributes it leaves.\<close>

definition eachAnchor :: "string \<Rightarrow> string \<Rightarrow> attrs \<Rightarrow> bool \<times> attrs" where
  "eachAnchor zkRelativeFromPath zkRelativeToPath elem =
     (case Attr elem ''href'' of
        (href, exists) \<Rightarrow>
          if exists \<and> hrefMatches zkRelativeFromPath href
          then (True, SetAttr elem ''href'' zkRelativeToPath)
          else (False, elem))"

text \<open>
  \<^verbatim>\<open>html.Find("a").Each(...)\<close>: the function runs on every element of tag \<^verbatim>\<open>a\<close> of
  the document. The result is the final value of \<^verbatim>\<open>foundReference\<close> and the document
  with the attributes set.
\<close>

fun rewriteNode :: "string \<Rightarrow> string \<Rightarrow> node \<Rightarrow> bool \<times> node"
  and rewriteNodes :: "string \<Rightarrow> string \<Rightarrow> node list \<Rightarrow> bool \<times> node list" where
  "rewriteNode f t (Other s) = (False, Other s)"
| "rewriteNode f t (Element tag elem kids) =
     (case (if tag = ''a'' then eachAnchor f t elem else (False, elem)) of
        (found, elem') \<Rightarrow>
          (case rewriteNodes f t kids of
             (foundBelow, kids') \<Rightarrow> (found \<or> foundBelow, Element tag elem' kids')))"
| "rewriteNodes f t [] = (False, [])"
| "rewriteNodes f t (n # ns) =
     (case rewriteNode f t n of
        (found, n') \<Rightarrow>
          (case rewriteNodes f t ns of
             (foundLater, ns') \<Rightarrow> (found \<or> foundLater, n' # ns')))"

text \<open>The \<open>href\<close> attribute of every anchor of a document, in document order:
  what a reader of the document sees of its links.\<close>

fun hrefsNode :: "node \<Rightarrow> string option list"
  and hrefs :: "node list \<Rightarrow> string option list" where
  "hrefsNode (Other s) = []"
| "hrefsNode (Element tag elem kids) =
     (if tag = ''a'' then [map_of elem ''href''] else []) @ hrefs kids"
| "hrefs [] = []"
| "hrefs (n # ns) = hrefsNode n @ hrefs ns"

subsection \<open>The walk\<close>

text \<open>
  The state the walk changes: the file system, and the names \<^verbatim>\<open>ioutil.WriteFile\<close> was
  called with, in order.
\<close>

record wstate =
  files :: filesys
  written :: "string list"

text \<open>An \<^verbatim>\<open>fs.DirEntry\<close>: its name and whether it is a directory.\<close>

datatype dirEntry = DirEntry string bool

definition Name :: "dirEntry \<Rightarrow> string" where
  "Name d = (case d of DirEntry n isdir \<Rightarrow> n)"

text \<open>What a call of the function passed to \<^verbatim>\<open>filepath.WalkDir\<close> does: it panics, or
  it returns an error or \<^verbatim>\<open>nil\<close>.\<close>

datatype returned = Panics panic | Returns "error option"

text \<open>
  The function literal of lines 144 to 177. Its \<open>dirEntry\<close> argument is an interface
  value, \<open>None\<close> when it is \<^verbatim>\<open>nil\<close>; calling \<^verbatim>\<open>Name()\<close> on \<^verbatim>\<open>nil\<close> panics. The
  argument \<open>err\<close> is not read. The result of \<^verbatim>\<open>ioutil.WriteFile\<close> is dropped.
\<close>

definition walkFn ::
  "htmllib \<Rightarrow> string \<Rightarrow> string \<Rightarrow> string \<Rightarrow>
   string \<Rightarrow> dirEntry option \<Rightarrow> error option \<Rightarrow> wstate \<Rightarrow> wstate \<times> returned" where
  "walkFn lib cwd zkRelativeFromPath zkRelativeToPath path dirEntry err st =
     (case dirEntry of
        None \<Rightarrow> (st, Panics NilPointerDereference)
      | Some d \<Rightarrow>
          if HasSuffix (Name d) ''.html'' then
            (case Open (files st) cwd path of
               Inl err \<Rightarrow> (st, Returns (Some err))
             | Inr fileContent \<Rightarrow>
                 (case (case ReadAll path fileContent of
                          Inl err \<Rightarrow> Inl err
                        | Inr data \<Rightarrow> parse lib data) of
                    Inl err \<Rightarrow> (st, Returns (Some err))
                  | Inr html \<Rightarrow>
                      (case rewriteNodes zkRelativeFromPath zkRelativeToPath html of
                         (foundReference, html') \<Rightarrow>
                           if foundReference then
                             (case render lib html' of
                                Inl err \<Rightarrow> (st, Returns (Some err))
                              | Inr newHtmlString \<Rightarrow>
                                  (st\<lparr>files := snd (WriteFile (files st) cwd path newHtmlString),
                                      written := written st @ [path]\<rparr>,
                                   Returns None))
                           else (st, Returns None))))
          else (st, Returns None))"

text \<open>
  \<^verbatim>\<open>filepath.WalkDir(root, fn)\<close>. When \<^verbatim>\<open>os.Lstat(root)\<close> fails the function is
  called once, with a \<^verbatim>\<open>nil\<close> entry and the error. Otherwise it is called on the root
  and on everything below it, a directory before its entries and the entries of a
  directory in the order of their names; a directory that cannot be read gets a second
  call, with the error, and its entries are not visited. The first call that does not
  return \<^verbatim>\<open>nil\<close> ends the walk (the function of this program never returns
  \<^verbatim>\<open>SkipDir\<close>). The path of an entry is \<^verbatim>\<open>filepath.Join\<close> of the path of its
  directory and its name.

  The calls are laid out from the file system as it is when the walk starts: the
  function above changes the bytes of regular files only, never the set of entries.
\<close>

definition listed :: "filesys \<Rightarrow> key \<Rightarrow> key \<Rightarrow> bool" where
  "listed fs r k =
     list_all (\<lambda>n. map_of fs (take n k) = Some (Directory True)) [length r..<length k]"

definition walkKeys :: "filesys \<Rightarrow> key \<Rightarrow> key list" where
  "walkKeys fs r = sort (remdups (filter (\<lambda>k. atOrUnder r k \<and> listed fs r k) (map fst fs)))"

definition walkPath :: "string \<Rightarrow> string list \<Rightarrow> string" where
  "walkPath root names = foldl (\<lambda>path name. Join [path, name]) root names"

definition callsAt ::
  "filesys \<Rightarrow> string \<Rightarrow> key \<Rightarrow> key \<Rightarrow> (string \<times> dirEntry \<times> error option) list" where
  "callsAt fs root r k =
     (let path = walkPath root (drop (length r) k);
          name = (if k = r then Base root else last k);
          d = DirEntry name (isDir (map_of fs k))
      in (path, d, None) #
         (if map_of fs k = Some (Directory False)
          then [(path, d, Some (PathError ''open'' path EACCES))] else []))"

fun runCalls ::
  "(string \<Rightarrow> dirEntry option \<Rightarrow> error option \<Rightarrow> wstate \<Rightarrow> wstate \<times> returned) \<Rightarrow>
   (string \<times> dirEntry \<times> error option) list \<Rightarrow> wstate \<Rightarrow> wstate \<times> returned" where
  "runCalls fn [] st = (st, Returns None)"
| "runCalls fn ((path, d, err) # calls) st =
     (case fn path (Some d) err st of
        (st', Returns None) \<Rightarrow> runCalls fn calls st'
      | (st', r) \<Rightarrow> (st', r))"

definition WalkDir ::
  "string \<Rightarrow> string \<Rightarrow>
   (string \<Rightarrow> dirEntry option \<Rightarrow> error option \<Rightarrow> wstate \<Rightarrow> wstate \<times> returned) \<Rightarrow>
   wstate \<Rightarrow> wstate \<times> returned" where
  "WalkDir cwd root fn st =
     (case Stat (files st) cwd root of
        Inl err \<Rightarrow> fn root None (Some err) st
      | Inr info \<Rightarrow>
          (case keyOf cwd root of
             None \<Rightarrow> fn root None (Some (PathError ''lstat'' root ENOENT)) st
           | Some r \<Rightarrow>
               runCalls fn (concat (map (callsAt (files st) root r) (walkKeys (files st) r))) st))"

subsection \<open>The command\<close>

text \<open>How the process ends: \<^verbatim>\<open>main\<close> returns, \<^verbatim>\<open>os.Exit(code)\<close>, or a panic.\<close>

datatype status = Returned | Exited nat | Panicked panic

record result = wstate +
  stdout :: string
  status :: status

definition finish :: "wstate \<Rightarrow> string \<Rightarrow> status \<Rightarrow> result" where
  "finish st out s = \<lparr>files = files st, written = written st, stdout = out, status = s\<rparr>"

definition newline :: string where
  "newline = [CHR 0x0A]"

text \<open>
  Lines 144 to 182: the walk, whose result is dropped, and then \<^verbatim>\<open>os.Rename\<close>.
\<close>

definition walkAndRename ::
  "htmllib \<Rightarrow> string \<Rightarrow> string \<Rightarrow> string \<Rightarrow> string \<Rightarrow> string \<Rightarrow> string \<Rightarrow>
   wstate \<Rightarrow> result" where
  "walkAndRename lib cwd zkRootDirectory zkRelativeFromPath zkRelativeToPath
     absFromPath absToPath st =
     (case WalkDir cwd zkRootDirectory (walkFn lib cwd zkRelativeFromPath zkRelativeToPath) st of
        (st', Panics p) \<Rightarrow> finish st' [] (Panicked p)
      | (st', Returns walkErr) \<Rightarrow>
          (case Rename (files st') cwd absFromPath absToPath of
             Inl err \<Rightarrow>
               finish st' (''Error moving item in file tree: '' @ Error err @ newline)
                 (Exited 1)
           | Inr fs' \<Rightarrow> finish (st'\<lparr>files := fs'\<rparr>) [] Returned))"

text \<open>
  The body of \<^verbatim>\<open>case "mv", "move"\<close> from line 122 on: \<open>fromPath\<close> and \<open>toPath\<close> are
  \<^verbatim>\<open>os.Args[2]\<close> and \<^verbatim>\<open>os.Args[3]\<close>, \<open>getwd\<close> is what \<^verbatim>\<open>os.Getwd()\<close> returns (the
  working directory of the process when it succeeds).
\<close>

definition mv :: "htmllib \<Rightarrow> filesys \<Rightarrow> error + string \<Rightarrow> string \<Rightarrow> string \<Rightarrow> result" where
  "mv lib fs getwd fromPath toPath =
     (let st = \<lparr>files = fs, written = []\<rparr> in
      case getwd of
        Inl err \<Rightarrow>
          finish st (''Error getting current working directory: '' @ Error err @ newline)
            (Exited 1)
      | Inr workingDir \<Rightarrow>
          (case ZkRoot fs workingDir workingDir of
             Inl err \<Rightarrow>
               finish st (''Error finding ZK root: '' @ Error err @ newline) (Exited 1)
           | Inr zkRootDirectory \<Rightarrow>
               (let absFromPath = Join [workingDir, fromPath];
                    absToPath = Join [workingDir, toPath]
                in
                case sliceFrom absFromPath (length zkRootDirectory) of
                  Inl p \<Rightarrow> finish st [] (Panicked p)
                | Inr zkRelativeFromPath \<Rightarrow>
                    (case sliceFrom absToPath (length zkRootDirectory) of
                       Inl p \<Rightarrow> finish st [] (Panicked p)
                     | Inr zkRelativeToPath0 \<Rightarrow>
                         (let zkRelativeToPath = TrimSuffix zkRelativeToPath0 ''/index.html'' in
                          case Stat fs workingDir absFromPath of
                            Inl err \<Rightarrow>
                              if IsNotExist err then
                                finish st (''File '' @ absFromPath @ '' does not exist'' @ newline)
                                  (Exited 1)
                              else walkAndRename lib workingDir zkRootDirectory
                                     zkRelativeFromPath zkRelativeToPath absFromPath absToPath st
                          | Inr info \<Rightarrow>
                              walkAndRename lib workingDir zkRootDirectory
                                zkRelativeFromPath zkRelativeToPath absFromPath absToPath st)))))"

section \<open>What the claims observe\<close>

text \<open>
  The link forms of the specification, for a path relative to the root: the path
  itself, the directory of the path when its last element is \<^verbatim>\<open>index.html\<close>, and the
  path without its extension when it ends in \<^verbatim>\<open>.html\<close>. These are the three
  disjuncts of the test of line 161, listed.
\<close>

definition linkForms :: "string \<Rightarrow> string list" where
  "linkForms zkRelativePath =
     [zkRelativePath] @
     (if Base zkRelativePath = ''index.html'' then [Dir zkRelativePath] else []) @
     (if HasSuffix zkRelativePath ''.html''
      then [take (length zkRelativePath - 5) zkRelativePath] else [])"

text \<open>An anchor refers to the path when it has an \<open>href\<close> and the \<open>href\<close> is one of
  the link forms.\<close>

definition refers :: "string \<Rightarrow> string option \<Rightarrow> bool" where
  "refers zkRelativeFromPath h =
     (case h of Some href \<Rightarrow> href \<in> set (linkForms zkRelativeFromPath) | None \<Rightarrow> False)"

text \<open>The bytes of the regular file of that name, if there is one.\<close>

definition contents :: "filesys \<Rightarrow> string \<Rightarrow> string \<Rightarrow> string option" where
  "contents fs cwd name =
     (case Stat fs cwd name of Inr (Regular r w data) \<Rightarrow> Some data | _ \<Rightarrow> None)"

text \<open>The document the function of the walk gets from a file: lines 147 to 155.\<close>

definition readDoc :: "htmllib \<Rightarrow> filesys \<Rightarrow> string \<Rightarrow> string \<Rightarrow> error + node list" where
  "readDoc lib fs cwd name =
     (case Open fs cwd name of
        Inl err \<Rightarrow> Inl err
      | Inr fileContent \<Rightarrow>
          (case ReadAll name fileContent of
             Inl err \<Rightarrow> Inl err
           | Inr data \<Rightarrow> parse lib data))"

definition docHrefs ::
  "htmllib \<Rightarrow> filesys \<Rightarrow> string \<Rightarrow> string \<Rightarrow> string option list option" where
  "docHrefs lib fs cwd name =
     (case readDoc lib fs cwd name of Inl err \<Rightarrow> None | Inr html \<Rightarrow> Some (hrefs html))"

text \<open>
  The names a file system can hold: not empty, without a separator, and neither
  \<^verbatim>\<open>.\<close> nor \<^verbatim>\<open>..\<close>. The absolute path of a key is the text that
  \<^verbatim>\<open>filepath.Clean\<close> leaves alone and that resolves to the key; the name of a key is
  what \<^verbatim>\<open>Name()\<close> returns for its entry.
\<close>

definition wfName :: "string \<Rightarrow> bool" where
  "wfName n = (n \<noteq> [] \<and> sep \<notin> set n \<and> n \<noteq> ''.'' \<and> n \<noteq> ''..'')"

definition wfKey :: "key \<Rightarrow> bool" where
  "wfKey k = list_all wfName k"

definition absPath :: "key \<Rightarrow> string" where
  "absPath k = sep # joinSep k"

definition nameOf :: "key \<Rightarrow> string" where
  "nameOf k = (if k = [] then [sep] else last k)"

text \<open>The entry is one the function of the walk takes for a document: its name ends
  in \<^verbatim>\<open>.html\<close>.\<close>

definition htmlNamed :: "key \<Rightarrow> bool" where
  "htmlNamed k = HasSuffix (nameOf k) ''.html''"

text \<open>
  An entry does not refer to the source when it is a directory, or a file that does not
  parse, or a file whose document has no anchor with an \<open>href\<close> among the link forms.
\<close>

definition unreferring :: "htmllib \<Rightarrow> string \<Rightarrow> entry \<Rightarrow> bool" where
  "unreferring lib f e =
     (case e of
        Regular r w data \<Rightarrow>
          (case parse lib data of
             Inl err \<Rightarrow> True
           | Inr html \<Rightarrow> \<not> list_ex (refers f) (hrefs html))
      | Directory r \<Rightarrow> True)"

text \<open>
  An entry is settled when the rewrite of it runs to its end: a readable regular file
  that parses and, if some anchor refers to the source, can be written, with a rewritten
  document that the library serialises to bytes that parse to that document again.
\<close>

definition settled :: "htmllib \<Rightarrow> string \<Rightarrow> string \<Rightarrow> entry \<Rightarrow> bool" where
  "settled lib f t e =
     (case e of
        Regular r w data \<Rightarrow>
          r \<and>
          (case parse lib data of
             Inl err \<Rightarrow> False
           | Inr html \<Rightarrow>
               \<not> fst (rewriteNodes f t html) \<or>
               w \<and>
               (case render lib (snd (rewriteNodes f t html)) of
                  Inl err \<Rightarrow> False
                | Inr s \<Rightarrow> parse lib s = Inr (snd (rewriteNodes f t html))))
      | Directory r \<Rightarrow> False)"

text \<open>The calls the walk makes for the entry of a key, by key.\<close>

definition toCall :: "key \<times> bool \<times> error option \<Rightarrow> string \<times> dirEntry \<times> error option" where
  "toCall c = (case c of (k, b, err) \<Rightarrow> (absPath k, DirEntry (nameOf k) b, err))"

definition keyCalls :: "filesys \<Rightarrow> key \<Rightarrow> (key \<times> bool \<times> error option) list" where
  "keyCalls fs k =
     (k, isDir (map_of fs k), None) #
     (if map_of fs k = Some (Directory False)
      then [(k, isDir (map_of fs k), Some (PathError ''open'' (absPath k) EACCES))] else [])"

section \<open>Projects to run the program on\<close>

text \<open>
  The documents of the scenarios: a page is what the HTML parser makes of a body, a
  link is an anchor with an \<open>href\<close>, and the bytes of a page are its serialisation.
  The library, at these documents, is the table that pairs each page with its bytes.
\<close>

definition link :: "string \<Rightarrow> node" where
  "link href = Element ''a'' [(''href'', href)] [Other ''A'']"

definition linkBytes :: "string \<Rightarrow> string" where
  "linkBytes href = ''<a href='' @ [CHR 0x22] @ href @ [CHR 0x22] @ ''>A</a>''"

definition page :: "node list \<Rightarrow> node list" where
  "page body = [Element ''html'' [] [Element ''head'' [] [], Element ''body'' [] body]]"

definition pageBytes :: "string \<Rightarrow> string" where
  "pageBytes body = ''<html><head></head><body>'' @ body @ ''</body></html>''"

definition links :: "string list \<Rightarrow> node list" where
  "links hs = page (map link hs)"

definition linksBytes :: "string list \<Rightarrow> string" where
  "linksBytes hs = pageBytes (concat (map linkBytes hs))"

definition notePage :: "node list" where
  "notePage = page [Element ''p'' [] [Other ''note a'']]"

definition noteBytes :: string where
  "noteBytes = pageBytes ''<p>note a</p>''"

definition tableLib :: "(string \<times> node list) list \<Rightarrow> htmllib" where
  "tableLib tab =
     \<lparr>parse = (\<lambda>data. case map_of tab data of
                        Some d \<Rightarrow> Inr d
                      | None \<Rightarrow> Inl (HtmlError ''not a page of the table'')),
      render = (\<lambda>d. case map_of (map (\<lambda>(data, d). (d, data)) tab) d of
                       Some data \<Rightarrow> Inr data
                     | None \<Rightarrow> Inl (HtmlError ''not a page of the table''))\<rparr>"

definition scenarioLib :: htmllib where
  "scenarioLib =
     tableLib ((noteBytes, notePage) #
       map (\<lambda>hs. (linksBytes hs, links hs))
         [[''notes/a.html''], [''/notes/a.html''], [''/archive/a.html''],
          [''notes/a''], [''/notes/a'']])"

text \<open>A readable and writable regular file holding the page with the given links.\<close>

definition doc :: "string list \<Rightarrow> entry" where
  "doc hs = Regular True True (linksBytes hs)"

text \<open>
  The project of the scenarios: the root \<^verbatim>\<open>/proj\<close> with the marker file, the note
  \<^verbatim>\<open>/proj/notes/a.html\<close>, the empty directory \<^verbatim>\<open>/proj/archive\<close>, and the given
  entries directly under the root.
\<close>

definition project :: "(string \<times> entry) list \<Rightarrow> filesys" where
  "project entries =
     [([], Directory True),
      ([''proj''], Directory True),
      ([''proj'', ''.zk-root''], Regular True True []),
      ([''proj'', ''archive''], Directory True),
      ([''proj'', ''notes''], Directory True),
      ([''proj'', ''notes'', ''a.html''], Regular True True noteBytes)] @
     map (\<lambda>(name, e). ([''proj'', name], e)) entries"

text \<open>A file system whose only marker file is in the root directory.\<close>

definition markerAtRoot :: filesys where
  "markerAtRoot =
     [([], Directory True),
      ([''.zk-root''], Regular True True []),
      ([''proj''], Directory True)]"

text \<open>Scenario A of the specification as it is written, and with the \<open>href\<close>
  written from the root of the site.\<close>

definition scenarioA :: result where
  "scenarioA =
     mv scenarioLib (project [(''index.html'', doc [''notes/a.html''])]) (Inr ''/proj'')
       ''notes/a.html'' ''archive/a.html''"

definition rootedProject :: filesys where
  "rootedProject = project [(''index.html'', doc [''/notes/a.html''])]"

definition scenarioA' :: result where
  "scenarioA' =
     mv scenarioLib rootedProject (Inr ''/proj'') ''notes/a.html'' ''archive/a.html''"

text \<open>Scenario C of the specification as it is written, and with both \<open>href\<close>s
  written from the root of the site.\<close>

definition scenarioC :: result where
  "scenarioC =
     mv scenarioLib
       (project [(''index.html'', doc [''notes/a'']), (''other.html'', doc [''notes/a.html''])])
       (Inr ''/proj'') ''notes/a.html'' ''archive/a.html''"

definition scenarioC' :: result where
  "scenarioC' =
     mv scenarioLib
       (project [(''index.html'', doc [''/notes/a'']), (''other.html'', doc [''/notes/a.html''])])
       (Inr ''/proj'') ''notes/a.html'' ''archive/a.html''"

text \<open>A move that drops the extension of the note, in a project whose index already
  links to the note without the extension.\<close>

definition prettyProject :: filesys where
  "prettyProject = project [(''index.html'', doc [''/notes/a''])]"

definition scenarioSame :: result where
  "scenarioSame = mv scenarioLib prettyProject (Inr ''/proj'') ''notes/a.html'' ''notes/a''"

text \<open>The same move in a project whose index links to the note with the extension,
  and the walk run once more on what the move leaves.\<close>

definition scenarioDrop :: result where
  "scenarioDrop = mv scenarioLib rootedProject (Inr ''/proj'') ''notes/a.html'' ''notes/a''"

definition scenarioDropAgain :: "wstate \<times> returned" where
  "scenarioDropAgain =
     WalkDir ''/proj'' ''/proj'' (walkFn scenarioLib ''/proj'' ''/notes/a.html'' ''/notes/a'')
       \<lparr>files = files scenarioDrop, written = []\<rparr>"

text \<open>Projects with an entry \<^verbatim>\<open>broken.html\<close> that cannot be opened (no read
  permission) or cannot be parsed (a directory), before an index that links to the note;
  and a project whose index cannot be written, before another document that links to
  the note.\<close>

definition unreadableProject :: filesys where
  "unreadableProject =
     project [(''broken.html'', Regular False True []),
              (''index.html'', doc [''/notes/a.html''])]"

definition unparsableProject :: filesys where
  "unparsableProject =
     project [(''broken.html'', Directory True),
              (''index.html'', doc [''/notes/a.html''])]"

definition unwritableProject :: filesys where
  "unwritableProject =
     project [(''index.html'', Regular True False (linksBytes [''/notes/a.html''])),
              (''other.html'', doc [''/notes/a.html''])]"

definition scenarioUnreadable :: result where
  "scenarioUnreadable =
     mv scenarioLib unreadableProject (Inr ''/proj'') ''notes/a.html'' ''archive/a.html''"

definition scenarioUnparsable :: result where
  "scenarioUnparsable =
     mv scenarioLib unparsableProject (Inr ''/proj'') ''notes/a.html'' ''archive/a.html''"

text \<open>A move, run in the root \<^verbatim>\<open>/proj\<close>, of the path \<^verbatim>\<open>/x\<close>, which does not
  exist and is shorter than the root.\<close>

definition scenarioShort :: result where
  "scenarioShort = mv scenarioLib (project []) (Inr ''/proj'') ''../x'' ''archive/x''"

text \<open>A move, run in the root, of a path under the root that does not exist; and a
  move of a path that does not exist because it runs through the regular file
  \<^verbatim>\<open>/proj/notes/a.html\<close>, in the project whose index links to that file.\<close>

definition scenarioMissing :: result where
  "scenarioMissing =
     mv scenarioLib (project []) (Inr ''/proj'') ''notes/b.html'' ''archive/b.html''"

definition scenarioThroughFile :: result where
  "scenarioThroughFile =
     mv scenarioLib rootedProject (Inr ''/proj'') ''notes/a.html/index.html''
       ''archive/a.html''"

text \<open>A move, run in \<^verbatim>\<open>/proj/notes\<close>, of a file outside the project.\<close>

definition outside :: filesys where
  "outside =
     project [] @
     [([''other''], Directory True),
      ([''other'', ''file.html''], Regular True True noteBytes)]"

definition scenarioOutside :: result where
  "scenarioOutside =
     mv scenarioLib outside (Inr ''/proj/notes'') ''../../other/file.html''
       ''../../other/moved.html''"

section \<open>Root resolution\<close>

text \<open>
  C2 (the code does not do what the claim and the comment above \<^verbatim>\<open>ZkRoot\<close> say).
  The marker file is in the root directory \<^verbatim>\<open>/\<close> and nowhere else, and the process
  runs in \<^verbatim>\<open>/proj\<close>. \<^verbatim>\<open>ZkRoot("/proj")\<close> does not find the marker in \<^verbatim>\<open>/proj\<close>, cuts
  the path at its last separator, which leaves the empty string and not \<^verbatim>\<open>/\<close>, looks
  for \<^verbatim>\<open>.zk-root\<close> relative to the working directory, and reports that no marker can be
  found; the directory \<^verbatim>\<open>/\<close> is never tested from a deeper directory.
\<close>

theorem ZkRoot_misses_marker_at_root:
  "Stat markerAtRoot ''/proj'' ''/.zk-root'' = Inr (Regular True True []) \<and>
   ZkRoot markerAtRoot ''/proj'' ''/proj'' = Inl (ErrorsNew ''.zk-root cannot be found'') \<and>
   ZkRoot markerAtRoot ''/proj'' ''/'' = Inr ''/''"
  by code_simp

section \<open>The function passed to the walk\<close>

text \<open>
  C10. The function passed to \<^verbatim>\<open>filepath.WalkDir\<close> calls \<^verbatim>\<open>dirEntry.Name()\<close> first
  and never reads its \<open>err\<close> argument. With a \<^verbatim>\<open>nil\<close> entry it panics on a nil
  dereference, whatever the error; with an entry it never panics, and what it does is
  the same for every \<open>err\<close>. \<^verbatim>\<open>WalkDir\<close> makes the call with the \<^verbatim>\<open>nil\<close> entry when
  \<^verbatim>\<open>os.Lstat\<close> of its root fails, so such a walk ends in that panic.
\<close>

theorem walkFn_nil_entry_panics:
  "walkFn lib cwd f t path None err st = (st, Panics NilPointerDereference) \<and>
   snd (walkFn lib cwd f t path (Some d) err st) \<noteq> Panics p \<and>
   walkFn lib cwd f t path dirEntry err st = walkFn lib cwd f t path dirEntry err' st \<and>
   (Stat (files st) cwd root = Inl e \<longrightarrow>
      WalkDir cwd root (walkFn lib cwd f t) st = (st, Panics NilPointerDereference))"
proof -
  have nil: "walkFn lib cwd f t path None err st = (st, Panics NilPointerDereference)"
    for path err
    by (simp add: walkFn_def)
  have entry: "snd (walkFn lib cwd f t path (Some d) err st) \<noteq> Panics p"
    by (simp add: walkFn_def split: sum.splits prod.splits)
  have same: "walkFn lib cwd f t path dirEntry err st = walkFn lib cwd f t path dirEntry err' st"
    by (simp add: walkFn_def)
  have walk: "WalkDir cwd root (walkFn lib cwd f t) st = (st, Panics NilPointerDereference)"
    if "Stat (files st) cwd root = Inl e"
    using that by (simp add: WalkDir_def nil)
  from nil entry same walk show ?thesis by blast
qed

theorem walkFn_nil_entry_panics_witness:
  "Stat (files \<lparr>files = project [], written = []\<rparr>) ''/proj'' ''/gone'' =
     Inl (PathError ''stat'' ''/gone'' ENOENT) \<and>
   WalkDir ''/proj'' ''/gone'' (walkFn scenarioLib ''/proj'' ''/a'' ''/b'')
     \<lparr>files = project [], written = []\<rparr> =
     (\<lparr>files = project [], written = []\<rparr>, Panics NilPointerDereference)"
proof -
  have s: "Stat (files \<lparr>files = project [], written = []\<rparr>) ''/proj'' ''/gone'' =
      Inl (PathError ''stat'' ''/gone'' ENOENT)"
    by code_simp
  from s walkFn_nil_entry_panics
    [of scenarioLib "''/proj''" "''/a''" "''/b''" "''/gone''" "None"
        "\<lparr>files = project [], written = []\<rparr>"]
  show ?thesis by blast
qed

section \<open>The rewrite of one document, anchor by anchor\<close>

lemma hrefMatches_linkForms: "hrefMatches f href = (href \<in> set (linkForms f))"
  by (auto simp: hrefMatches_def linkForms_def)

lemma eachAnchor_found: "fst (eachAnchor f t elem) = refers f (map_of elem ''href'')"
  by (simp add: eachAnchor_def Attr_def refers_def hrefMatches_linkForms split: option.splits)

lemma eachAnchor_href:
  "map_of (snd (eachAnchor f t elem)) ''href'' =
     map_option (\<lambda>href. if href \<in> set (linkForms f) then t else href) (map_of elem ''href'')"
  by (simp add: eachAnchor_def Attr_def SetAttr_def update_conv' hrefMatches_linkForms
      split: option.splits)

lemma eachAnchor_same: "\<not> fst (eachAnchor f t elem) \<Longrightarrow> snd (eachAnchor f t elem) = elem"
  by (simp add: eachAnchor_def Attr_def split: option.splits if_splits)

lemma rewriteNode_Element:
  "rewriteNode f t (Element tag elem kids) =
     ((tag = ''a'' \<and> fst (eachAnchor f t elem)) \<or> fst (rewriteNodes f t kids),
      Element tag (if tag = ''a'' then snd (eachAnchor f t elem) else elem)
        (snd (rewriteNodes f t kids)))"
  by (simp split: prod.splits)

lemma rewriteNodes_Cons:
  "rewriteNodes f t (n # ns) =
     (fst (rewriteNode f t n) \<or> fst (rewriteNodes f t ns),
      snd (rewriteNode f t n) # snd (rewriteNodes f t ns))"
  by (simp split: prod.splits)

lemma found_rewrite:
  "fst (rewriteNode f t n) = list_ex (refers f) (hrefsNode n)"
  "fst (rewriteNodes f t ns) = list_ex (refers f) (hrefs ns)"
proof (induction f t n and f t ns rule: rewriteNode_rewriteNodes.induct)
  case (2 f t tag elem kids)
  from "2.IH" [OF prod.collapse] show ?case
    by (simp add: rewriteNode_Element eachAnchor_found del: rewriteNode.simps)
next
  case (4 f t n ns)
  from "4.IH"(1) "4.IH"(2) [OF prod.collapse] show ?case
    by (simp add: rewriteNodes_Cons del: rewriteNodes.simps)
qed simp_all

lemma hrefs_rewrite:
  "hrefsNode (snd (rewriteNode f t n)) =
     map (map_option (\<lambda>href. if href \<in> set (linkForms f) then t else href)) (hrefsNode n)"
  "hrefs (snd (rewriteNodes f t ns)) =
     map (map_option (\<lambda>href. if href \<in> set (linkForms f) then t else href)) (hrefs ns)"
proof (induction f t n and f t ns rule: rewriteNode_rewriteNodes.induct)
  case (2 f t tag elem kids)
  from "2.IH" [OF prod.collapse] show ?case
    by (simp add: rewriteNode_Element eachAnchor_href del: rewriteNode.simps)
next
  case (4 f t n ns)
  from "4.IH"(1) "4.IH"(2) [OF prod.collapse] show ?case
    by (simp add: rewriteNodes_Cons del: rewriteNodes.simps)
qed simp_all

lemma rewrite_same:
  "\<not> fst (rewriteNode f t n) \<Longrightarrow> snd (rewriteNode f t n) = n"
  "\<not> fst (rewriteNodes f t ns) \<Longrightarrow> snd (rewriteNodes f t ns) = ns"
proof (induction f t n and f t ns rule: rewriteNode_rewriteNodes.induct)
  case (2 f t tag elem kids)
  from "2.prems" "2.IH" [OF prod.collapse] show ?case
    by (simp add: rewriteNode_Element eachAnchor_same del: rewriteNode.simps)
next
  case (4 f t n ns)
  from "4.prems" "4.IH"(1) "4.IH"(2) [OF prod.collapse] show ?case
    by (simp add: rewriteNodes_Cons del: rewriteNodes.simps)
qed simp_all

text \<open>What one call of the function of the walk does to the state.\<close>

lemma walkFn_cases:
  "walkFn lib cwd f t path (Some d) err st =
     (if HasSuffix (Name d) ''.html'' then
        (case readDoc lib (files st) cwd path of
           Inl e \<Rightarrow> (st, Returns (Some e))
         | Inr html \<Rightarrow>
             if fst (rewriteNodes f t html) then
               (case render lib (snd (rewriteNodes f t html)) of
                  Inl e \<Rightarrow> (st, Returns (Some e))
                | Inr newHtmlString \<Rightarrow>
                    (st\<lparr>files := snd (WriteFile (files st) cwd path newHtmlString),
                        written := written st @ [path]\<rparr>, Returns None))
             else (st, Returns None))
      else (st, Returns None))"
  by (simp add: walkFn_def readDoc_def split: sum.splits prod.splits)

section \<open>Scenarios A and C\<close>

text \<open>
  C1, as the claim states it, fails. In scenario A the root is \<^verbatim>\<open>/proj\<close>, so
  \<^verbatim>\<open>zkRelativeFromPath\<close> is \<^verbatim>\<open>absFromPath[len("/proj"):]\<close>, which is
  \<^verbatim>\<open>/notes/a.html\<close> with the separator that follows the root. The \<open>href\<close>
  \<^verbatim>\<open>notes/a.html\<close> is none of its link forms: the move renames the note and leaves
  \<^verbatim>\<open>/proj/index.html\<close> as it was, its anchor still reading \<^verbatim>\<open>notes/a.html\<close>.
\<close>

theorem scenario_A_href_not_rewritten:
  "status scenarioA = Returned \<and>
   contents (files scenarioA) ''/proj'' ''/proj/notes/a.html'' = None \<and>
   contents (files scenarioA) ''/proj'' ''/proj/archive/a.html'' = Some noteBytes \<and>
   written scenarioA = [] \<and>
   docHrefs scenarioLib (files scenarioA) ''/proj'' ''/proj/index.html'' =
     Some [Some ''notes/a.html''] \<and>
   docHrefs scenarioLib (files scenarioA) ''/proj'' ''/proj/index.html'' \<noteq>
     Some [Some ''archive/a.html'']"
  by code_simp

text \<open>
  C1, amended. The slice that makes a path relative to the root keeps the separator
  that follows the root, so the link forms of the note are \<^verbatim>\<open>/notes/a.html\<close> and
  \<^verbatim>\<open>/notes/a\<close>. With the anchor of \<^verbatim>\<open>/proj/index.html\<close> reading \<^verbatim>\<open>/notes/a.html\<close>,
  the move of scenario A returns normally, \<^verbatim>\<open>/proj/notes/a.html\<close> no longer exists,
  \<^verbatim>\<open>/proj/archive/a.html\<close> holds the bytes of the note, the index is the one file
  written, and its anchor reads \<^verbatim>\<open>/archive/a.html\<close>.
\<close>

theorem scenario_A_rooted_href_rewritten:
  "sliceFrom (root @ sep # rest) (length root) = Inr (sep # rest) \<and>
   linkForms ''/notes/a.html'' = [''/notes/a.html'', ''/notes/a''] \<and>
   status scenarioA' = Returned \<and>
   Stat (files scenarioA') ''/proj'' ''/proj/notes/a.html'' =
     Inl (PathError ''stat'' ''/proj/notes/a.html'' ENOENT) \<and>
   contents (files scenarioA') ''/proj'' ''/proj/archive/a.html'' = Some noteBytes \<and>
   written scenarioA' = [''/proj/index.html''] \<and>
   docHrefs scenarioLib (files scenarioA') ''/proj'' ''/proj/index.html'' =
     Some [Some ''/archive/a.html'']"
proof -
  have "sliceFrom (root @ sep # rest) (length root) = Inr (sep # rest)"
    by (simp add: sliceFrom_def)
  moreover have "linkForms ''/notes/a.html'' = [''/notes/a.html'', ''/notes/a'']"
    by code_simp
  moreover have "status scenarioA' = Returned"
    by code_simp
  moreover have "Stat (files scenarioA') ''/proj'' ''/proj/notes/a.html'' =
      Inl (PathError ''stat'' ''/proj/notes/a.html'' ENOENT)"
    by code_simp
  moreover have "contents (files scenarioA') ''/proj'' ''/proj/archive/a.html'' = Some noteBytes"
    by code_simp
  moreover have "written scenarioA' = [''/proj/index.html'']"
    by code_simp
  moreover have "docHrefs scenarioLib (files scenarioA') ''/proj'' ''/proj/index.html'' =
      Some [Some ''/archive/a.html'']"
    by code_simp
  ultimately show ?thesis by blast
qed

text \<open>
  C3, as the claim states it, fails. With the \<open>href\<close>s \<^verbatim>\<open>notes/a\<close> and
  \<^verbatim>\<open>notes/a.html\<close> of scenario C nothing is written and both anchors keep their
  values; and with the \<open>href\<close> \<^verbatim>\<open>/notes/a\<close>, which is a link form of the note, the
  anchor does not become \<^verbatim>\<open>/archive/a\<close>.
\<close>

theorem scenario_C_hrefs_not_rewritten:
  "status scenarioC = Returned \<and>
   written scenarioC = [] \<and>
   docHrefs scenarioLib (files scenarioC) ''/proj'' ''/proj/index.html'' =
     Some [Some ''notes/a''] \<and>
   docHrefs scenarioLib (files scenarioC) ''/proj'' ''/proj/other.html'' =
     Some [Some ''notes/a.html''] \<and>
   docHrefs scenarioLib (files scenarioC') ''/proj'' ''/proj/index.html'' \<noteq>
     Some [Some ''/archive/a'']"
  by code_simp

text \<open>
  C3, amended. Every anchor whose \<open>href\<close> is one of the link forms of the source gets
  the one string \<^verbatim>\<open>zkRelativeToPath\<close>, whichever form it matched, and every other
  anchor keeps its \<open>href\<close>: in any document, for any source and destination. In
  scenario C with the \<open>href\<close>s \<^verbatim>\<open>/notes/a\<close> and \<^verbatim>\<open>/notes/a.html\<close>, both documents are
  written and both anchors read \<^verbatim>\<open>/archive/a.html\<close>.
\<close>

theorem every_match_set_to_one_string:
  "hrefs (snd (rewriteNodes f t html)) =
     map (map_option (\<lambda>href. if href \<in> set (linkForms f) then t else href)) (hrefs html) \<and>
   status scenarioC' = Returned \<and>
   written scenarioC' = [''/proj/index.html'', ''/proj/other.html''] \<and>
   docHrefs scenarioLib (files scenarioC') ''/proj'' ''/proj/index.html'' =
     Some [Some ''/archive/a.html''] \<and>
   docHrefs scenarioLib (files scenarioC') ''/proj'' ''/proj/other.html'' =
     Some [Some ''/archive/a.html'']"
proof -
  have "status scenarioC' = Returned"
    by code_simp
  moreover have "written scenarioC' = [''/proj/index.html'', ''/proj/other.html'']"
    by code_simp
  moreover have "docHrefs scenarioLib (files scenarioC') ''/proj'' ''/proj/index.html'' =
      Some [Some ''/archive/a.html'']"
    by code_simp
  moreover have "docHrefs scenarioLib (files scenarioC') ''/proj'' ''/proj/other.html'' =
      Some [Some ''/archive/a.html'']"
    by code_simp
  ultimately show ?thesis
    using hrefs_rewrite(2) [of f t html] by blast
qed

section \<open>A source that does not exist\<close>

text \<open>
  The case the test of lines 139 to 143 covers. When the root is found, the absolute
  source and destination paths are at least as long as the root, and the error of
  \<^verbatim>\<open>os.Stat\<close> on the source is \<^verbatim>\<open>os.ErrNotExist\<close>, the command prints that the file
  does not exist and exits with code 1 before the walk: the file system is the one it
  started with and \<^verbatim>\<open>ioutil.WriteFile\<close> was not called.
\<close>

lemma missing_source_reported:
  assumes "ZkRoot fs cwd cwd = Inr root"
    and "length root \<le> length (Join [cwd, fromPath])"
    and "length root \<le> length (Join [cwd, toPath])"
    and "Stat fs cwd (Join [cwd, fromPath]) = Inl err"
    and "IsNotExist err"
  shows "mv lib fs (Inr cwd) fromPath toPath =
     \<lparr>files = fs, written = [],
      stdout = ''File '' @ Join [cwd, fromPath] @ '' does not exist'' @ newline,
      status = Exited 1\<rparr>"
  using assms by (simp add: mv_def sliceFrom_def finish_def Let_def)

text \<open>
  C4 (the code does not do what the claim says, and what lines 139 to 143 set out to
  do). All three moves are run in the root \<^verbatim>\<open>/proj\<close>, with a source that does not
  exist.

  With the source \<^verbatim>\<open>notes/b.html\<close> the command does what the claim says: it prints
  that the file does not exist and exits with code 1, and nothing is written.

  With the source \<^verbatim>\<open>../x\<close> the absolute path \<^verbatim>\<open>/x\<close> is shorter than the root, and
  the slice of line 136, which comes before the test of line 139, panics: no message
  that the file does not exist is printed.

  With the source \<^verbatim>\<open>notes/a.html/index.html\<close> the path runs through the regular file
  \<^verbatim>\<open>/proj/notes/a.html\<close>, so the error of \<^verbatim>\<open>os.Stat\<close> is \<^verbatim>\<open>ENOTDIR\<close>, which is not
  \<^verbatim>\<open>os.ErrNotExist\<close>: the test of line 140 lets the command through, the walk
  rewrites the anchor of \<^verbatim>\<open>/proj/index.html\<close> from \<^verbatim>\<open>/notes/a.html\<close> to
  \<^verbatim>\<open>/archive/a.html\<close> and writes the file, and only then \<^verbatim>\<open>os.Rename\<close> fails and the
  command exits with code 1, with the message of the rename and not that of the missing
  file.
\<close>

theorem missing_source_is_not_always_reported:
  "Stat (project []) ''/proj'' (Join [''/proj'', ''notes/b.html'']) =
     Inl (PathError ''stat'' ''/proj/notes/b.html'' ENOENT) \<and>
   scenarioMissing =
     \<lparr>files = project [], written = [],
      stdout = ''File /proj/notes/b.html does not exist'' @ newline,
      status = Exited 1\<rparr> \<and>
   Stat (project []) ''/proj'' (Join [''/proj'', ''../x'']) =
     Inl (PathError ''stat'' ''/x'' ENOENT) \<and>
   status scenarioShort = Panicked (SliceBoundsOutOfRange 5 2) \<and>
   stdout scenarioShort = [] \<and>
   Stat rootedProject ''/proj'' (Join [''/proj'', ''notes/a.html/index.html'']) =
     Inl (PathError ''stat'' ''/proj/notes/a.html/index.html'' ENOTDIR) \<and>
   status scenarioThroughFile = Exited 1 \<and>
   stdout scenarioThroughFile =
     ''Error moving item in file tree: '' @
     ''rename /proj/notes/a.html/index.html /proj/archive/a.html: not a directory'' @ newline \<and>
   written scenarioThroughFile = [''/proj/index.html''] \<and>
   docHrefs scenarioLib rootedProject ''/proj'' ''/proj/index.html'' =
     Some [Some ''/notes/a.html''] \<and>
   docHrefs scenarioLib (files scenarioThroughFile) ''/proj'' ''/proj/index.html'' =
     Some [Some ''/archive/a.html'']"
  by code_simp

section \<open>Paths outside the root\<close>

text \<open>
  C6, as the claim states it, fails. The move is run in \<^verbatim>\<open>/proj/notes\<close>, whose root is
  \<^verbatim>\<open>/proj\<close>, with the source \<^verbatim>\<open>../../other/file.html\<close>: the absolute path
  \<^verbatim>\<open>/other/file.html\<close> is not under the root, its relative path is computed all the
  same, as \<^verbatim>\<open>r/file.html\<close>, and the command walks the project, renames the file and
  returns normally, with no error printed.
\<close>

theorem outside_path_gets_a_relative_path:
  "ZkRoot outside ''/proj/notes'' ''/proj/notes'' = Inr ''/proj'' \<and>
   Join [''/proj/notes'', ''../../other/file.html''] = ''/other/file.html'' \<and>
   sliceFrom ''/other/file.html'' (length ''/proj'') = Inr ''r/file.html'' \<and>
   status scenarioOutside = Returned \<and>
   stdout scenarioOutside = [] \<and>
   contents (files scenarioOutside) ''/proj/notes'' ''/other/file.html'' = None \<and>
   contents (files scenarioOutside) ''/proj/notes'' ''/other/moved.html'' = Some noteBytes"
  by code_simp

text \<open>
  C6, amended. The program has no test that a path lies under the root and no error for
  a path that does not. When the root is found, the absolute source and destination
  paths are at least as long as the root, and the source exists, the relative source
  path is the absolute path without its first \<^verbatim>\<open>len(root)\<close> bytes, whether the root is
  a prefix of it or not, and the command goes on to the walk and the rename with that
  string (and with the destination cut in the same way and trimmed of a final
  \<^verbatim>\<open>/index.html\<close>).
\<close>

theorem relative_paths_are_unchecked_slices:
  assumes "ZkRoot fs cwd cwd = Inr root"
    and "length root \<le> length (Join [cwd, fromPath])"
    and "length root \<le> length (Join [cwd, toPath])"
    and "Stat fs cwd (Join [cwd, fromPath]) = Inr info"
  shows "sliceFrom (Join [cwd, fromPath]) (length root) =
           Inr (drop (length root) (Join [cwd, fromPath])) \<and>
         mv lib fs (Inr cwd) fromPath toPath =
           walkAndRename lib cwd root
             (drop (length root) (Join [cwd, fromPath]))
             (TrimSuffix (drop (length root) (Join [cwd, toPath])) ''/index.html'')
             (Join [cwd, fromPath]) (Join [cwd, toPath]) \<lparr>files = fs, written = []\<rparr>"
  using assms by (simp add: mv_def sliceFrom_def Let_def)

theorem relative_paths_are_unchecked_slices_witness:
  "ZkRoot outside ''/proj/notes'' ''/proj/notes'' = Inr ''/proj'' \<and>
   length ''/proj'' \<le> length (Join [''/proj/notes'', ''../../other/file.html'']) \<and>
   length ''/proj'' \<le> length (Join [''/proj/notes'', ''../../other/moved.html'']) \<and>
   Stat outside ''/proj/notes'' (Join [''/proj/notes'', ''../../other/file.html'']) =
     Inr (Regular True True noteBytes) \<and>
   sliceFrom (Join [''/proj/notes'', ''../../other/file.html'']) (length ''/proj'') =
     Inr (drop (length ''/proj'') (Join [''/proj/notes'', ''../../other/file.html''])) \<and>
   mv scenarioLib outside (Inr ''/proj/notes'') ''../../other/file.html''
       ''../../other/moved.html'' =
     walkAndRename scenarioLib ''/proj/notes'' ''/proj''
       (drop (length ''/proj'') (Join [''/proj/notes'', ''../../other/file.html'']))
       (TrimSuffix (drop (length ''/proj'') (Join [''/proj/notes'', ''../../other/moved.html'']))
          ''/index.html'')
       (Join [''/proj/notes'', ''../../other/file.html''])
       (Join [''/proj/notes'', ''../../other/moved.html''])
       \<lparr>files = outside, written = []\<rparr>"
proof -
  have 1: "ZkRoot outside ''/proj/notes'' ''/proj/notes'' = Inr ''/proj''"
    by code_simp
  have 2: "length ''/proj'' \<le> length (Join [''/proj/notes'', ''../../other/file.html''])"
    by code_simp
  have 3: "length ''/proj'' \<le> length (Join [''/proj/notes'', ''../../other/moved.html''])"
    by code_simp
  have 4: "Stat outside ''/proj/notes'' (Join [''/proj/notes'', ''../../other/file.html'']) =
      Inr (Regular True True noteBytes)"
    by code_simp
  from 1 2 3 4 relative_paths_are_unchecked_slices [OF 1 2 3 4, of scenarioLib]
  show ?thesis by blast
qed

section \<open>The dirty flag\<close>

text \<open>
  C7, as the claim states it, fails. The note \<^verbatim>\<open>/proj/notes/a.html\<close> is moved to
  \<^verbatim>\<open>/proj/notes/a\<close>, and the index links to it as \<^verbatim>\<open>/notes/a\<close>, which is a link form
  of the source and also the destination string. Setting the \<open>href\<close> leaves the document
  as it was, \<^verbatim>\<open>foundReference\<close> is set nevertheless, and the index is written back.
\<close>

theorem unchanged_href_marks_dirty:
  "rewriteNodes ''/notes/a.html'' ''/notes/a'' (links [''/notes/a'']) =
     (True, links [''/notes/a'']) \<and>
   docHrefs scenarioLib prettyProject ''/proj''
     ''/proj/index.html'' = Some [Some ''/notes/a''] \<and>
   docHrefs scenarioLib (files scenarioSame) ''/proj'' ''/proj/index.html'' =
     Some [Some ''/notes/a''] \<and>
   written scenarioSame = [''/proj/index.html'']"
  by code_simp

text \<open>
  C7, amended. \<^verbatim>\<open>foundReference\<close> is true after the anchors of a document exactly when
  at least one anchor has an \<open>href\<close> that is one of the link forms of the source,
  whether setting it changes the value or not; and a call of the function of the walk
  changes the state (the file, or the list of files written) only for a document that
  was read and parsed and for which \<^verbatim>\<open>foundReference\<close> is true.
\<close>

theorem dirty_iff_an_anchor_refers:
  "fst (rewriteNodes f t html) = list_ex (refers f) (hrefs html) \<and>
   (fst (walkFn lib cwd f t path dirEntry err st) \<noteq> st \<longrightarrow>
      (\<exists>html. readDoc lib (files st) cwd path = Inr html \<and> fst (rewriteNodes f t html)))"
proof -
  have "\<exists>html. readDoc lib (files st) cwd path = Inr html \<and> fst (rewriteNodes f t html)"
    if "fst (walkFn lib cwd f t path dirEntry err st) \<noteq> st"
  proof (cases dirEntry)
    case None
    with that show ?thesis by (simp add: walkFn_def)
  next
    case (Some d)
    with that show ?thesis
      by (auto simp: walkFn_cases split: if_splits sum.splits)
  qed
  then show ?thesis
    using found_rewrite(2) [of f t html] by blast
qed

theorem dirty_iff_an_anchor_refers_witness:
  "fst (walkFn scenarioLib ''/proj'' ''/notes/a.html'' ''/notes/a'' ''/proj/index.html''
          (Some (DirEntry ''index.html'' False)) None
          \<lparr>files = prettyProject, written = []\<rparr>) \<noteq>
     \<lparr>files = prettyProject, written = []\<rparr> \<and>
   (\<exists>html. readDoc scenarioLib
        (files \<lparr>files = prettyProject, written = []\<rparr>)
        ''/proj'' ''/proj/index.html'' = Inr html \<and>
      fst (rewriteNodes ''/notes/a.html'' ''/notes/a'' html))"
proof -
  have 1: "fst (walkFn scenarioLib ''/proj'' ''/notes/a.html'' ''/notes/a'' ''/proj/index.html''
          (Some (DirEntry ''index.html'' False)) None
          \<lparr>files = prettyProject, written = []\<rparr>) \<noteq>
     \<lparr>files = prettyProject, written = []\<rparr>"
    by code_simp
  from 1 dirty_iff_an_anchor_refers
    [of "''/notes/a.html''" "''/notes/a''" "[]" scenarioLib "''/proj''" "''/proj/index.html''"
        "Some (DirEntry ''index.html'' False)" None
        "\<lparr>files = prettyProject, written = []\<rparr>"]
  show ?thesis by blast
qed

section \<open>Documents that do not refer to the source\<close>

lemma WriteFile_other:
  "keyOf cwd name \<noteq> Some k \<Longrightarrow> map_of (snd (WriteFile fs cwd name data)) k = map_of fs k"
  by (auto simp: WriteFile_def update_conv' split: option.splits entry.splits)

lemma WriteFile_failed: "fst (WriteFile fs cwd name data) = Some e \<Longrightarrow> snd (WriteFile fs cwd name data) = fs"
  by (auto simp: WriteFile_def split: option.splits entry.splits if_splits)

lemma readDoc_Regular:
  assumes "keyOf cwd name = Some k" and "map_of fs k = Some (Regular r w data)"
    and "readDoc lib fs cwd name = Inr html"
  shows "parse lib data = Inr html"
  using assms by (simp add: readDoc_def Open_def ReadAll_def split: if_splits)

lemma walkFn_frame:
  assumes "map_of (files st) k = Some (Regular r w data)"
    and "\<forall>html. parse lib data = Inr html \<longrightarrow> \<not> list_ex (refers f) (hrefs html)"
  shows "map_of (files (fst (walkFn lib cwd f t path dirEntry err st))) k = map_of (files st) k \<and>
         (written (fst (walkFn lib cwd f t path dirEntry err st)) = written st \<or>
          written (fst (walkFn lib cwd f t path dirEntry err st)) = written st @ [path] \<and>
          keyOf cwd path \<noteq> Some k)"
proof (cases dirEntry)
  case None
  then show ?thesis by (simp add: walkFn_def)
next
  case (Some d)
  have other: "keyOf cwd path \<noteq> Some k"
    if "readDoc lib (files st) cwd path = Inr html" "fst (rewriteNodes f t html)" for html
    using that assms readDoc_Regular [of cwd path k "files st" r w data lib html]
    by (auto simp: found_rewrite(2))
  show ?thesis
    unfolding Some walkFn_cases
    by (auto split: sum.splits simp: WriteFile_other dest: other)
qed

lemma runCalls_Cons:
  "runCalls fn ((path, d, err) # calls) st =
     (if snd (fn path (Some d) err st) = Returns None
      then runCalls fn calls (fst (fn path (Some d) err st))
      else fn path (Some d) err st)"
  by (auto split: prod.splits returned.splits option.splits)

lemma runCalls_frame:
  assumes "map_of (files st) k = Some (Regular r w data)"
    and "\<forall>html. parse lib data = Inr html \<longrightarrow> \<not> list_ex (refers f) (hrefs html)"
  shows "map_of (files (fst (runCalls (walkFn lib cwd f t) calls st))) k = map_of (files st) k \<and>
         (\<exists>ws. written (fst (runCalls (walkFn lib cwd f t) calls st)) = written st @ ws \<and>
               (\<forall>name \<in> set ws. keyOf cwd name \<noteq> Some k))"
  using assms(1)
proof (induction calls arbitrary: st)
  case Nil
  then show ?case by simp
next
  case (Cons c calls)
  obtain path d err where c: "c = (path, d, err)" by (cases c)
  let ?st1 = "fst (walkFn lib cwd f t path (Some d) err st)"
  from walkFn_frame [OF Cons.prems assms(2), of cwd t path "Some d" err]
  have 1: "map_of (files ?st1) k = map_of (files st) k"
    and 2: "written ?st1 = written st \<or> written ?st1 = written st @ [path] \<and> keyOf cwd path \<noteq> Some k"
    by blast+
  from 2 obtain ws1 where ws1: "written ?st1 = written st @ ws1"
    "\<forall>name \<in> set ws1. keyOf cwd name \<noteq> Some k"
    by (cases "written ?st1 = written st") auto
  show ?case
  proof (cases "snd (walkFn lib cwd f t path (Some d) err st) = Returns None")
    case True
    then have run: "runCalls (walkFn lib cwd f t) (c # calls) st =
        runCalls (walkFn lib cwd f t) calls ?st1"
      by (simp add: c runCalls_Cons del: runCalls.simps)
    from 1 Cons.prems have "map_of (files ?st1) k = Some (Regular r w data)" by simp
    from Cons.IH [OF this] obtain ws where
      "map_of (files (fst (runCalls (walkFn lib cwd f t) calls ?st1))) k = map_of (files ?st1) k"
      "written (fst (runCalls (walkFn lib cwd f t) calls ?st1)) = written ?st1 @ ws"
      "\<forall>name \<in> set ws. keyOf cwd name \<noteq> Some k"
      by blast
    with 1 ws1 run show ?thesis by auto
  next
    case False
    then have "fst (runCalls (walkFn lib cwd f t) (c # calls) st) = ?st1"
      by (simp add: c runCalls_Cons del: runCalls.simps)
    with 1 ws1 show ?thesis by auto
  qed
qed

text \<open>
  C8. Take any regular file of the file system, at any place, whose bytes do not parse
  to a document with an anchor whose \<open>href\<close> is a link form of the source. After the
  walk, from any root and however it ends, the file is the same entry with the same
  bytes; no call of \<^verbatim>\<open>ioutil.WriteFile\<close> made by the walk names it; and
  \<^verbatim>\<open>foundReference\<close> is false for its document.
\<close>

theorem unreferring_document_is_not_written:
  assumes "map_of (files st) k = Some (Regular r w data)"
    and "\<forall>html. parse lib data = Inr html \<longrightarrow> \<not> list_ex (refers f) (hrefs html)"
  shows "map_of (files (fst (WalkDir cwd root (walkFn lib cwd f t) st))) k =
           Some (Regular r w data) \<and>
         (\<exists>ws. written (fst (WalkDir cwd root (walkFn lib cwd f t) st)) = written st @ ws \<and>
               (\<forall>name \<in> set ws. keyOf cwd name \<noteq> Some k)) \<and>
         (\<forall>html. parse lib data = Inr html \<longrightarrow> \<not> fst (rewriteNodes f t html))"
proof -
  have nil: "fst (walkFn lib cwd f t root None e st) = st" for e
    by (simp add: walkFn_def)
  have "map_of (files (fst (WalkDir cwd root (walkFn lib cwd f t) st))) k = map_of (files st) k \<and>
      (\<exists>ws. written (fst (WalkDir cwd root (walkFn lib cwd f t) st)) = written st @ ws \<and>
            (\<forall>name \<in> set ws. keyOf cwd name \<noteq> Some k))"
    using runCalls_frame [OF assms]
    by (auto simp: WalkDir_def nil split: sum.splits option.splits)
  with assms show ?thesis
    by (simp add: found_rewrite(2))
qed

theorem unreferring_document_is_not_written_witness:
  "map_of (files \<lparr>files = rootedProject, written = []\<rparr>)
     [''proj'', ''notes'', ''a.html''] = Some (Regular True True noteBytes) \<and>
   parse scenarioLib noteBytes = Inr notePage \<and>
   \<not> list_ex (refers ''/notes/a.html'') (hrefs notePage) \<and>
   map_of (files (fst (WalkDir ''/proj'' ''/proj''
       (walkFn scenarioLib ''/proj'' ''/notes/a.html'' ''/archive/a.html'')
       \<lparr>files = rootedProject, written = []\<rparr>)))
     [''proj'', ''notes'', ''a.html''] = Some (Regular True True noteBytes)"
proof -
  have 1: "map_of
      (files \<lparr>files = rootedProject, written = []\<rparr>)
      [''proj'', ''notes'', ''a.html''] = Some (Regular True True noteBytes)"
    by code_simp
  have p: "parse scenarioLib noteBytes = Inr notePage"
    by code_simp
  have q: "\<not> list_ex (refers ''/notes/a.html'') (hrefs notePage)"
    by code_simp
  have 2: "\<forall>html. parse scenarioLib noteBytes = Inr html \<longrightarrow>
      \<not> list_ex (refers ''/notes/a.html'') (hrefs html)"
    by (simp add: p q)
  from 1 p q unreferring_document_is_not_written
    [OF 1 2, of "''/proj''" "''/proj''" "''/archive/a.html''"]
  show ?thesis by blast
qed

section \<open>Errors during the walk\<close>

text \<open>
  C5, as the claim states it, fails. In a project where \<^verbatim>\<open>broken.html\<close> comes before
  \<^verbatim>\<open>index.html\<close> and cannot be opened (no read permission), or cannot be parsed (it
  is a directory, so reading it fails), the function of the walk returns the error and
  \<^verbatim>\<open>filepath.WalkDir\<close> stops: the index, which links to the note, is never visited
  and keeps its \<open>href\<close>, while the note is renamed.
\<close>

theorem walk_stops_at_unreadable_document:
  "status scenarioUnreadable = Returned \<and>
   written scenarioUnreadable = [] \<and>
   contents (files scenarioUnreadable) ''/proj'' ''/proj/archive/a.html'' = Some noteBytes \<and>
   docHrefs scenarioLib (files scenarioUnreadable) ''/proj'' ''/proj/index.html'' =
     Some [Some ''/notes/a.html''] \<and>
   status scenarioUnparsable = Returned \<and>
   written scenarioUnparsable = [] \<and>
   docHrefs scenarioLib (files scenarioUnparsable) ''/proj'' ''/proj/index.html'' =
     Some [Some ''/notes/a.html'']"
  by code_simp

text \<open>
  C5, amended. An error opening, reading or parsing a document is returned by the
  function of the walk and ends the walk there: the calls that remain are not made and
  the state is the one before the call. An error of \<^verbatim>\<open>ioutil.WriteFile\<close> is dropped:
  the file system is unchanged and the walk goes on with the calls that remain. No error
  is collected, and whatever error the walk returns, the command goes on to
  \<^verbatim>\<open>os.Rename\<close> with the state the walk left.
\<close>

theorem read_errors_end_the_walk_write_errors_do_not:
  "(HasSuffix (Name d) ''.html'' \<and> readDoc lib (files st) cwd path = Inl e \<longrightarrow>
      runCalls (walkFn lib cwd f t) ((path, d, err) # calls) st = (st, Returns (Some e))) \<and>
   (HasSuffix (Name d') ''.html'' \<and> readDoc lib (files st') cwd path' = Inr html \<and>
    fst (rewriteNodes f t html) \<and> render lib (snd (rewriteNodes f t html)) = Inr s \<and>
    fst (WriteFile (files st') cwd path' s) = Some e' \<longrightarrow>
      runCalls (walkFn lib cwd f t) ((path', d', err') # calls') st' =
        runCalls (walkFn lib cwd f t) calls' (st'\<lparr>written := written st' @ [path']\<rparr>)) \<and>
   (WalkDir cwd root (walkFn lib cwd f t) st'' = (st1, Returns walkErr) \<longrightarrow>
      walkAndRename lib cwd root f t absFromPath absToPath st'' =
        (case Rename (files st1) cwd absFromPath absToPath of
           Inl renameErr \<Rightarrow>
             finish st1 (''Error moving item in file tree: '' @ Error renameErr @ newline)
               (Exited 1)
         | Inr fs' \<Rightarrow> finish (st1\<lparr>files := fs'\<rparr>) [] Returned))"
proof -
  have a: "runCalls (walkFn lib cwd f t) ((path, d, err) # calls) st = (st, Returns (Some e))"
    if "HasSuffix (Name d) ''.html''" "readDoc lib (files st) cwd path = Inl e"
    using that by (simp add: runCalls_Cons walkFn_cases del: runCalls.simps)
  have b: "runCalls (walkFn lib cwd f t) ((path', d', err') # calls') st' =
        runCalls (walkFn lib cwd f t) calls' (st'\<lparr>written := written st' @ [path']\<rparr>)"
    if "HasSuffix (Name d') ''.html''" "readDoc lib (files st') cwd path' = Inr html"
      "fst (rewriteNodes f t html)" "render lib (snd (rewriteNodes f t html)) = Inr s"
      "fst (WriteFile (files st') cwd path' s) = Some e'"
    using that WriteFile_failed [OF that(5)]
    by (simp add: runCalls_Cons walkFn_cases del: runCalls.simps)
  have c: "walkAndRename lib cwd root f t absFromPath absToPath st'' =
        (case Rename (files st1) cwd absFromPath absToPath of
           Inl renameErr \<Rightarrow>
             finish st1 (''Error moving item in file tree: '' @ Error renameErr @ newline)
               (Exited 1)
         | Inr fs' \<Rightarrow> finish (st1\<lparr>files := fs'\<rparr>) [] Returned)"
    if "WalkDir cwd root (walkFn lib cwd f t) st'' = (st1, Returns walkErr)"
    using that by (simp add: walkAndRename_def)
  from a b c show ?thesis by blast
qed

theorem read_errors_end_the_walk_write_errors_do_not_witness:
  "HasSuffix (Name (DirEntry ''broken.html'' False)) ''.html'' \<and>
   readDoc scenarioLib (files \<lparr>files = unreadableProject, written = []\<rparr>) ''/proj''
     ''/proj/broken.html'' = Inl (PathError ''open'' ''/proj/broken.html'' EACCES) \<and>
   runCalls (walkFn scenarioLib ''/proj'' ''/notes/a.html'' ''/archive/a.html'')
     [(''/proj/broken.html'', DirEntry ''broken.html'' False, None),
      (''/proj/index.html'', DirEntry ''index.html'' False, None)]
     \<lparr>files = unreadableProject, written = []\<rparr> =
     (\<lparr>files = unreadableProject, written = []\<rparr>,
      Returns (Some (PathError ''open'' ''/proj/broken.html'' EACCES))) \<and>
   fst (WriteFile (files \<lparr>files = unwritableProject, written = []\<rparr>) ''/proj''
     ''/proj/index.html'' (linksBytes [''/archive/a.html''])) =
     Some (PathError ''open'' ''/proj/index.html'' EACCES) \<and>
   runCalls (walkFn scenarioLib ''/proj'' ''/notes/a.html'' ''/archive/a.html'')
     [(''/proj/index.html'', DirEntry ''index.html'' False, None),
      (''/proj/other.html'', DirEntry ''other.html'' False, None)]
     \<lparr>files = unwritableProject, written = []\<rparr> =
     runCalls (walkFn scenarioLib ''/proj'' ''/notes/a.html'' ''/archive/a.html'')
       [(''/proj/other.html'', DirEntry ''other.html'' False, None)]
       (\<lparr>files = unwritableProject, written = []\<rparr>
          \<lparr>written := written \<lparr>files = unwritableProject, written = []\<rparr> @
             [''/proj/index.html'']\<rparr>) \<and>
   WalkDir ''/proj'' ''/proj'' (walkFn scenarioLib ''/proj'' ''/notes/a.html'' ''/archive/a.html'')
     \<lparr>files = unreadableProject, written = []\<rparr> =
     (\<lparr>files = unreadableProject, written = []\<rparr>,
      Returns (Some (PathError ''open'' ''/proj/broken.html'' EACCES))) \<and>
   walkAndRename scenarioLib ''/proj'' ''/proj'' ''/notes/a.html'' ''/archive/a.html''
     ''/proj/notes/a.html'' ''/proj/archive/a.html'' \<lparr>files = unreadableProject, written = []\<rparr> =
     (case Rename (files \<lparr>files = unreadableProject, written = []\<rparr>) ''/proj''
             ''/proj/notes/a.html'' ''/proj/archive/a.html'' of
        Inl renameErr \<Rightarrow>
          finish \<lparr>files = unreadableProject, written = []\<rparr>
            (''Error moving item in file tree: '' @ Error renameErr @ newline) (Exited 1)
      | Inr fs' \<Rightarrow>
          finish (\<lparr>files = unreadableProject, written = []\<rparr>\<lparr>files := fs'\<rparr>) [] Returned)"
proof -
  have a1: "HasSuffix (Name (DirEntry ''broken.html'' False)) ''.html''"
    by code_simp
  have a2: "readDoc scenarioLib (files \<lparr>files = unreadableProject, written = []\<rparr>) ''/proj''
      ''/proj/broken.html'' = Inl (PathError ''open'' ''/proj/broken.html'' EACCES)"
    by code_simp
  have b1: "HasSuffix (Name (DirEntry ''index.html'' False)) ''.html''"
    by code_simp
  have b2: "readDoc scenarioLib (files \<lparr>files = unwritableProject, written = []\<rparr>) ''/proj''
      ''/proj/index.html'' = Inr (links [''/notes/a.html''])"
    by code_simp
  have b3: "fst (rewriteNodes ''/notes/a.html'' ''/archive/a.html'' (links [''/notes/a.html'']))"
    by code_simp
  have b4: "render scenarioLib
      (snd (rewriteNodes ''/notes/a.html'' ''/archive/a.html'' (links [''/notes/a.html'']))) =
      Inr (linksBytes [''/archive/a.html''])"
    by code_simp
  have b5: "fst (WriteFile (files \<lparr>files = unwritableProject, written = []\<rparr>) ''/proj''
      ''/proj/index.html'' (linksBytes [''/archive/a.html''])) =
      Some (PathError ''open'' ''/proj/index.html'' EACCES)"
    by code_simp
  have c1: "WalkDir ''/proj'' ''/proj''
      (walkFn scenarioLib ''/proj'' ''/notes/a.html'' ''/archive/a.html'')
      \<lparr>files = unreadableProject, written = []\<rparr> =
      (\<lparr>files = unreadableProject, written = []\<rparr>,
       Returns (Some (PathError ''open'' ''/proj/broken.html'' EACCES)))"
    by code_simp
  from a1 a2 b1 b2 b3 b4 b5 c1
    read_errors_end_the_walk_write_errors_do_not
      [of "DirEntry ''broken.html'' False" scenarioLib
          "\<lparr>files = unreadableProject, written = []\<rparr>" "''/proj''" "''/proj/broken.html''"
          "PathError ''open'' ''/proj/broken.html'' EACCES"
          "''/notes/a.html''" "''/archive/a.html''" None
          "[(''/proj/index.html'', DirEntry ''index.html'' False, None)]"
          "DirEntry ''index.html'' False"
          "\<lparr>files = unwritableProject, written = []\<rparr>" "''/proj/index.html''"
          "links [''/notes/a.html'']" "linksBytes [''/archive/a.html'']"
          "PathError ''open'' ''/proj/index.html'' EACCES" None
          "[(''/proj/other.html'', DirEntry ''other.html'' False, None)]"
          "''/proj''" "\<lparr>files = unreadableProject, written = []\<rparr>"
          "\<lparr>files = unreadableProject, written = []\<rparr>"
          "Some (PathError ''open'' ''/proj/broken.html'' EACCES)"
          "''/proj/notes/a.html''" "''/proj/archive/a.html''"]
  show ?thesis by blast
qed

section \<open>Paths and keys\<close>

lemma Split_nonempty: "Split s \<noteq> []"
  by (induction s) (auto split: list.splits)

lemma Split_no_sep: "e \<in> set (Split s) \<Longrightarrow> sep \<notin> set e"
  by (induction s arbitrary: e) (auto split: list.splits if_splits)

lemma Split_plain: "sep \<notin> set n \<Longrightarrow> Split n = [n]"
  by (induction n) auto

lemma Split_append_sep: "sep \<notin> set n \<Longrightarrow> Split (n @ sep # s) = n # Split s"
  by (induction n) (auto simp: Split_nonempty split: list.splits)

lemma Split_joinSep: "ks \<noteq> [] \<Longrightarrow> \<forall>n \<in> set ks. sep \<notin> set n \<Longrightarrow> Split (joinSep ks) = ks"
proof (induction ks rule: joinSep.induct)
  case 1
  then show ?case by simp
next
  case (2 e)
  then show ?case by (simp add: Split_plain)
next
  case (3 e v va)
  then show ?case by (simp add: Split_append_sep)
qed

lemma cleanElems_wf:
  "\<forall>n \<in> set es. wfName n \<Longrightarrow> cleanElems rooted kept es = rev kept @ es"
  by (induction es arbitrary: kept) (auto simp: wfName_def)

lemma cleanElems_wfKey:
  "\<forall>n \<in> set kept. wfName n \<Longrightarrow> \<forall>e \<in> set es. sep \<notin> set e \<Longrightarrow>
   \<forall>n \<in> set (cleanElems True kept es). wfName n"
proof (induction es arbitrary: kept)
  case Nil
  then show ?case by simp
next
  case (Cons e es)
  show ?case
  proof (cases "e = [] \<or> e = ''.''")
    case True
    with Cons show ?thesis by simp
  next
    case False
    show ?thesis
    proof (cases "e = ''..''")
      case True
      with Cons.prems Cons.IH [of "tl kept"] Cons.IH [of kept] show ?thesis
        by (cases kept) (auto simp: wfName_def)
    next
      case False
      with \<open>\<not> (e = [] \<or> e = ''.'')\<close> Cons.prems have "\<forall>n \<in> set (e # kept). wfName n"
        by (auto simp: wfName_def)
      from Cons.IH [OF this] Cons.prems False \<open>\<not> (e = [] \<or> e = ''.'')\<close> show ?thesis
        by simp
    qed
  qed
qed

lemma keyOf_wfKey:
  assumes "keyOf cwd path = Some k"
  shows "wfKey k"
proof -
  have "\<forall>n \<in> set (cleanElems True [] es). wfName n" if "\<forall>e \<in> set es. sep \<notin> set e" for es
    using cleanElems_wfKey [of "[]" es] that by simp
  moreover have "\<forall>e \<in> set (Split path). sep \<notin> set e"
    "\<forall>e \<in> set (Split cwd @ Split path). sep \<notin> set e"
    by (auto simp: Split_no_sep)
  ultimately have "\<forall>n \<in> set (cleanElems True [] (Split path)). wfName n"
    "\<forall>n \<in> set (cleanElems True [] (Split cwd @ Split path)). wfName n"
    by blast+
  with assms show ?thesis
    by (auto simp: keyOf_def wfKey_def list_all_iff split: if_splits)
qed

lemma Split_absPath: "wfKey k \<Longrightarrow> cleanElems True [] (Split (absPath k)) = k"
proof (cases "k = []")
  case True
  then show ?thesis by (simp add: absPath_def)
next
  case False
  assume "wfKey k"
  then have "\<forall>n \<in> set k. sep \<notin> set n" and wf: "\<forall>n \<in> set k. wfName n"
    by (auto simp: wfKey_def wfName_def list_all_iff)
  with False have "Split (absPath k) = [] # k"
    by (simp add: absPath_def Split_joinSep)
  with wf show ?thesis
    by (simp add: cleanElems_wf)
qed

lemma keyOf_absPath: "wfKey k \<Longrightarrow> keyOf cwd (absPath k) = Some k"
  using Split_absPath [of k] by (simp add: keyOf_def absPath_def)

lemma joinSep_snoc: "k \<noteq> [] \<Longrightarrow> joinSep (k @ [n]) = joinSep k @ sep # n"
  by (induction k rule: joinSep.induct) auto

lemma Clean_rooted: "Clean (sep # s) = sep # joinSep (cleanElems True [] (Split (sep # s)))"
  by (simp add: Clean_def Let_def)

lemma Join_absPath:
  assumes "wfKey k" "wfName n"
  shows "Join [absPath k, n] = absPath (k @ [n])"
proof -
  from assms have wf: "wfKey (k @ [n])" by (simp add: wfKey_def)
  have "cleanElems True [] (Split (absPath k @ sep # n)) = k @ [n]"
  proof (cases "k = []")
    case True
    with assms show ?thesis
      by (simp add: absPath_def Split_plain wfName_def)
  next
    case False
    then have "absPath k @ sep # n = absPath (k @ [n])"
      by (simp add: absPath_def joinSep_snoc)
    with wf show ?thesis by (simp add: Split_absPath)
  qed
  then show ?thesis
    using Clean_rooted [of "joinSep k @ sep # n"] by (simp add: absPath_def)
qed

lemma walkPath_absPath:
  "wfKey k \<Longrightarrow> wfKey names \<Longrightarrow> walkPath (absPath k) names = absPath (k @ names)"
proof (induction names arbitrary: k)
  case Nil
  then show ?case by (simp add: walkPath_def)
next
  case (Cons n names)
  then have "wfName n" "wfKey names" "wfKey (k @ [n])"
    by (simp_all add: wfKey_def)
  moreover have "walkPath (absPath k) (n # names) = walkPath (Join [absPath k, n]) names"
    by (simp add: walkPath_def del: Join.simps)
  ultimately show ?case
    using Cons.IH [of "k @ [n]"] Cons.prems by (simp add: Join_absPath del: Join.simps)
qed

lemma joinSep_last: "k \<noteq> [] \<Longrightarrow> \<exists>pre. sep # joinSep k = pre @ sep # last k"
proof (induction k rule: joinSep.induct)
  case 1
  then show ?case by simp
next
  case (2 e)
  then show ?case by simp
next
  case (3 e v va)
  then obtain pre where "sep # joinSep (v # va) = pre @ sep # last (v # va)" by auto
  then have "sep # joinSep (e # v # va) = (sep # e @ pre) @ sep # last (e # v # va)"
    by simp
  then show ?case by blast
qed

lemma Base_absPath: "wfKey k \<Longrightarrow> Base (absPath k) = nameOf k"
proof (cases "k = []")
  case True
  then show ?thesis by (simp add: Base_def absPath_def nameOf_def)
next
  case False
  assume "wfKey k"
  with False have n: "last k \<noteq> []" "sep \<notin> set (last k)"
    by (auto simp: wfKey_def wfName_def list_all_iff)
  from joinSep_last [OF False] obtain pre where pre: "absPath k = pre @ sep # last k"
    by (auto simp: absPath_def)
  from n have 1: "dropWhile (\<lambda>c. c = sep) (rev (last k) @ sep # rev pre) = rev (last k) @ sep # rev pre"
    by (cases "rev (last k)") auto
  from n have "\<And>c. c \<in> set (rev (last k)) \<Longrightarrow> c \<noteq> sep"
    by auto
  from takeWhile_append2 [of "rev (last k)" "\<lambda>c. c \<noteq> sep" "sep # rev pre", OF this]
  have 2: "takeWhile (\<lambda>c. c \<noteq> sep) (rev (last k) @ sep # rev pre) = rev (last k)"
    by simp
  from n False show ?thesis
    by (simp add: Base_def pre 1 2 nameOf_def Let_def)
qed

lemma atOrUnder_append: "atOrUnder r k \<Longrightarrow> r @ drop (length r) k = k"
  by (metis append_take_drop_id atOrUnder_def)

lemma atOrUnder_trans: "atOrUnder r k \<Longrightarrow> atOrUnder k k' \<Longrightarrow> atOrUnder r k'"
  by (metis atOrUnder_def append_take_drop_id take_append take_all_iff length_take min.absorb_iff2 nat_le_linear take_take)

lemma wfKey_take: "wfKey k \<Longrightarrow> wfKey (take n k)"
  by (auto simp: wfKey_def list_all_iff dest: in_set_takeD)

lemma wfKey_drop: "wfKey k \<Longrightarrow> wfKey (drop n k)"
  by (auto simp: wfKey_def list_all_iff dest: in_set_dropD)

lemma wfKey_atOrUnder: "wfKey k \<Longrightarrow> atOrUnder r k \<Longrightarrow> wfKey r"
  using wfKey_take [of k "length r"] by (simp add: atOrUnder_def)

lemma toCall_simp: "toCall (k, b, err) = (absPath k, DirEntry (nameOf k) b, err)"
  by (simp add: toCall_def)

lemma callsAt_toCall:
  assumes "wfKey k" "atOrUnder rk k"
  shows "callsAt fs (absPath rk) rk k = map toCall (keyCalls fs k)"
proof -
  from assms have rk: "wfKey rk" "wfKey (drop (length rk) k)"
    by (auto intro: wfKey_atOrUnder wfKey_drop)
  then have path: "walkPath (absPath rk) (drop (length rk) k) = absPath k"
    using assms by (simp add: walkPath_absPath atOrUnder_append)
  have name: "(if k = rk then Base (absPath rk) else last k) = nameOf k"
    using rk assms by (auto simp: Base_absPath nameOf_def atOrUnder_def)
  show ?thesis
    by (simp add: callsAt_def keyCalls_def toCall_simp path name Let_def)
qed

lemma set_walkKeys:
  "set (walkKeys fs r) = {k \<in> set (map fst fs). atOrUnder r k \<and> listed fs r k}"
  by (auto simp: walkKeys_def)

lemma readDoc_Inr:
  "readDoc lib fs cwd name = Inr html \<Longrightarrow>
   \<exists>k r w data. keyOf cwd name = Some k \<and> map_of fs k = Some (Regular r w data) \<and>
     parse lib data = Inr html"
  by (auto simp: readDoc_def Open_def ReadAll_def split: option.splits entry.splits if_splits)

lemma readDoc_absPath:
  "wfKey k \<Longrightarrow> map_of fs k = Some (Regular True w data) \<Longrightarrow>
   readDoc lib fs cwd (absPath k) = parse lib data"
  by (simp add: readDoc_def Open_def ReadAll_def keyOf_absPath)

lemma rewritten_unreferring:
  "t \<notin> set (linkForms f) \<Longrightarrow> \<not> list_ex (refers f) (hrefs (snd (rewriteNodes f t html)))"
  by (auto simp: hrefs_rewrite(2) list_ex_iff refers_def split: option.splits)

text \<open>The second pass: a call on an entry that does not refer to the source changes nothing.\<close>

lemma walkFn_unreferring:
  assumes "wfKey k"
    and "htmlNamed k \<longrightarrow> (\<forall>e. map_of (files st) k = Some e \<longrightarrow> unreferring lib f e)"
  shows "fst (walkFn lib cwd f t (absPath k) (Some (DirEntry (nameOf k) b)) err st) = st"
proof (cases "htmlNamed k")
  case False
  then show ?thesis by (simp add: walkFn_cases Name_def htmlNamed_def)
next
  case True
  show ?thesis
  proof (cases "readDoc lib (files st) cwd (absPath k)")
    case (Inl e)
    then show ?thesis by (simp add: walkFn_cases)
  next
    case (Inr html)
    from readDoc_Inr [OF this] assms(1) obtain r w data where
      "map_of (files st) k = Some (Regular r w data)" "parse lib data = Inr html"
      by (auto simp: keyOf_absPath)
    with assms(2) True have "\<not> fst (rewriteNodes f t html)"
      by (auto simp: unreferring_def found_rewrite(2))
    with Inr show ?thesis by (simp add: walkFn_cases)
  qed
qed

lemma runCalls_unreferring:
  assumes "\<forall>c \<in> set kcs. wfKey (fst c) \<and>
      (htmlNamed (fst c) \<longrightarrow> (\<forall>e. map_of (files st) (fst c) = Some e \<longrightarrow> unreferring lib f e))"
  shows "fst (runCalls (walkFn lib cwd f t) (map toCall kcs) st) = st"
  using assms
proof (induction kcs)
  case Nil
  then show ?case by simp
next
  case (Cons c kcs)
  obtain k b err where c: "c = (k, b, err)" by (cases c)
  from Cons.prems c have
    1: "fst (walkFn lib cwd f t (absPath k) (Some (DirEntry (nameOf k) b)) err st) = st"
    by (intro walkFn_unreferring) auto
  from Cons have 2: "fst (runCalls (walkFn lib cwd f t) (map toCall kcs) st) = st"
    by simp
  show ?case
    by (cases "snd (walkFn lib cwd f t (absPath k) (Some (DirEntry (nameOf k) b)) err st) =
          Returns None")
      (simp_all add: c toCall_simp runCalls_Cons 1 2 del: runCalls.simps)
qed

text \<open>The first pass: a call on a settled entry returns nil and leaves the entry
  settled and not referring to the source.\<close>

lemma walkFn_settles:
  assumes wf: "wfKey k"
    and e: "map_of (files st) k = Some e"
    and s: "htmlNamed k \<longrightarrow> settled lib f t e"
    and nt: "t \<notin> set (linkForms f)"
  shows "snd (walkFn lib cwd f t (absPath k) (Some (DirEntry (nameOf k) b)) err st) = Returns None \<and>
    map fst (files (fst (walkFn lib cwd f t (absPath k) (Some (DirEntry (nameOf k) b)) err st))) =
      map fst (files st) \<and>
    (\<forall>k'. k' \<noteq> k \<longrightarrow>
       map_of (files (fst (walkFn lib cwd f t (absPath k) (Some (DirEntry (nameOf k) b)) err st))) k' =
       map_of (files st) k') \<and>
    (\<exists>e'. map_of (files (fst (walkFn lib cwd f t (absPath k) (Some (DirEntry (nameOf k) b)) err st))) k =
            Some e' \<and>
          (htmlNamed k \<longrightarrow> settled lib f t e' \<and> unreferring lib f e'))"
proof (cases "htmlNamed k")
  case False
  with e show ?thesis by (simp add: walkFn_cases Name_def htmlNamed_def)
next
  case True
  with s obtain w data html where
    ent: "e = Regular True w data" and p: "parse lib data = Inr html" and
    rest: "\<not> fst (rewriteNodes f t html) \<or>
      w \<and> (case render lib (snd (rewriteNodes f t html)) of
             Inl err \<Rightarrow> False
           | Inr s \<Rightarrow> parse lib s = Inr (snd (rewriteNodes f t html)))"
    by (auto simp: settled_def split: entry.splits sum.splits)
  from wf e ent p have rd: "readDoc lib (files st) cwd (absPath k) = Inr html"
    by (simp add: readDoc_absPath)
  from True have nm: "HasSuffix (Name (DirEntry (nameOf k) b)) ''.html''"
    by (simp add: Name_def htmlNamed_def)
  show ?thesis
  proof (cases "fst (rewriteNodes f t html)")
    case False
    with rd nm have "walkFn lib cwd f t (absPath k) (Some (DirEntry (nameOf k) b)) err st =
        (st, Returns None)"
      by (simp add: walkFn_cases)
    moreover from False p ent have "unreferring lib f e"
      by (simp add: unreferring_def found_rewrite(2))
    ultimately show ?thesis using e s True by simp
  next
    case found: True
    with rest obtain s' where w: "w" and r: "render lib (snd (rewriteNodes f t html)) = Inr s'"
      and p': "parse lib s' = Inr (snd (rewriteNodes f t html))"
      by (auto split: sum.splits)
    from wf e ent w have wr: "snd (WriteFile (files st) cwd (absPath k) s') =
        AList.update k (Regular True True s') (files st)"
      by (simp add: WriteFile_def keyOf_absPath)
    from rd nm found r wr have run:
      "walkFn lib cwd f t (absPath k) (Some (DirEntry (nameOf k) b)) err st =
        (st\<lparr>files := AList.update k (Regular True True s') (files st),
            written := written st @ [absPath k]\<rparr>, Returns None)"
      by (simp add: walkFn_cases)
    from e have "k \<in> fst ` set (files st)"
      by (metis map_of_eq_None_iff option.distinct(1))
    then have keys: "map fst (AList.update k (Regular True True s') (files st)) = map fst (files st)"
      by (simp add: update_keys)
    from nt have nf: "\<not> fst (rewriteNodes f t (snd (rewriteNodes f t html)))"
      by (simp add: found_rewrite(2) rewritten_unreferring)
    from p' nf have "settled lib f t (Regular True True s')"
      by (simp add: settled_def)
    moreover from p' nt have "unreferring lib f (Regular True True s')"
      by (simp add: unreferring_def rewritten_unreferring)
    ultimately show ?thesis
      by (simp add: run keys update_conv')
  qed
qed

lemma runCalls_settles:
  assumes nt: "t \<notin> set (linkForms f)"
  shows "\<forall>c \<in> set kcs. wfKey (fst c) \<and> atOrUnder rk (fst c) \<and> fst c \<in> fst ` set (files st) \<Longrightarrow>
     \<forall>k e. atOrUnder rk k \<and> htmlNamed k \<and> map_of (files st) k = Some e \<longrightarrow> settled lib f t e \<Longrightarrow>
     \<forall>k \<in> C. \<forall>e. htmlNamed k \<and> map_of (files st) k = Some e \<longrightarrow> unreferring lib f e \<Longrightarrow>
     map fst (files (fst (runCalls (walkFn lib cwd f t) (map toCall kcs) st))) = map fst (files st) \<and>
     (\<forall>k e. atOrUnder rk k \<and> htmlNamed k \<and>
        map_of (files (fst (runCalls (walkFn lib cwd f t) (map toCall kcs) st))) k = Some e \<longrightarrow>
        settled lib f t e) \<and>
     (\<forall>k \<in> C \<union> fst ` set kcs. \<forall>e. htmlNamed k \<and>
        map_of (files (fst (runCalls (walkFn lib cwd f t) (map toCall kcs) st))) k = Some e \<longrightarrow>
        unreferring lib f e)"
proof (induction kcs arbitrary: st C)
  case Nil
  then show ?case by simp
next
  case (Cons c kcs)
  obtain k b err where c: "c = (k, b, err)" by (cases c)
  let ?r = "walkFn lib cwd f t (absPath k) (Some (DirEntry (nameOf k) b)) err st"
  from Cons.prems(1) c have k: "wfKey k" "atOrUnder rk k" "k \<in> fst ` set (files st)"
    by auto
  then obtain e where e: "map_of (files st) k = Some e"
    by (metis map_of_eq_None_iff not_Some_eq)
  with Cons.prems(2) k have "htmlNamed k \<longrightarrow> settled lib f t e"
    by blast
  from walkFn_settles [OF k(1) e this nt, of cwd b err]
  obtain e' where
    ret: "snd ?r = Returns None" and
    keys: "map fst (files (fst ?r)) = map fst (files st)" and
    others: "\<forall>k'. k' \<noteq> k \<longrightarrow> map_of (files (fst ?r)) k' = map_of (files st) k'" and
    e': "map_of (files (fst ?r)) k = Some e'"
      "htmlNamed k \<longrightarrow> settled lib f t e' \<and> unreferring lib f e'"
    by blast
  have run: "runCalls (walkFn lib cwd f t) (map toCall (c # kcs)) st =
      runCalls (walkFn lib cwd f t) (map toCall kcs) (fst ?r)"
    by (simp add: c toCall_simp runCalls_Cons ret del: runCalls.simps)
  have 1: "\<forall>c \<in> set kcs. wfKey (fst c) \<and> atOrUnder rk (fst c) \<and> fst c \<in> fst ` set (files (fst ?r))"
  proof -
    from keys have "fst ` set (files (fst ?r)) = fst ` set (files st)"
      by (metis set_map)
    with Cons.prems(1) show ?thesis by simp
  qed
  have 2: "\<forall>k' e. atOrUnder rk k' \<and> htmlNamed k' \<and> map_of (files (fst ?r)) k' = Some e \<longrightarrow>
      settled lib f t e"
    using Cons.prems(2) others e' by (metis option.inject)
  have 3: "\<forall>k' \<in> insert k C. \<forall>e. htmlNamed k' \<and> map_of (files (fst ?r)) k' = Some e \<longrightarrow>
      unreferring lib f e"
    using Cons.prems(3) others e' by (metis insert_iff option.inject)
  from Cons.IH [OF 1 2 3] keys show ?case
    unfolding run by (simp add: c)
qed

text \<open>The rename.\<close>

lemma Rename_Inr:
  assumes "Rename fs cwd oldpath newpath = Inr fs2"
  shows "\<exists>old new. keyOf cwd oldpath = Some old \<and> keyOf cwd newpath = Some new \<and>
    (fs2 = fs \<or> fs2 = map (rekey old new) (filter (\<lambda>ke. fst ke \<noteq> new) fs))"
  using assms by (auto simp: Rename_def split: option.splits if_splits)

lemma nameOf_append: "ks \<noteq> [] \<Longrightarrow> nameOf (new @ ks) = nameOf ks"
  by (simp add: nameOf_def)

lemma renamed_entry:
  assumes "(k2, e2) \<in> set (map (rekey old new) (filter (\<lambda>ke. fst ke \<noteq> new) fs1))"
  shows "\<exists>k1. (k1, e2) \<in> set fs1 \<and>
    (k2 = k1 \<or> atOrUnder old k1 \<and> k2 = new @ drop (length old) k1)"
proof -
  from assms obtain ke where
    "ke \<in> set fs1" "rekey old new ke = (k2, e2)"
    by auto
  moreover obtain k1 e1 where "ke = (k1, e1)" by (cases ke)
  ultimately have "(k1, e2) \<in> set fs1"
    "k2 = k1 \<or> atOrUnder old k1 \<and> k2 = new @ drop (length old) k1"
    by (auto simp: rekey_def split: if_splits)
  then show ?thesis by blast
qed

lemma renamed_unreferring:
  assumes dist: "distinct (map fst fs1)"
    and un: "\<forall>k e. atOrUnder rk k \<and> htmlNamed k \<and> map_of fs1 k = Some e \<longrightarrow> unreferring lib f e"
    and old: "atOrUnder rk old"
    and names: "htmlNamed new \<longrightarrow> htmlNamed old"
    and k2: "atOrUnder rk k2" "htmlNamed k2"
      "(k2, e2) \<in> set (map (rekey old new) (filter (\<lambda>ke. fst ke \<noteq> new) fs1))"
  shows "unreferring lib f e2"
proof -
  from renamed_entry [OF k2(3)] obtain k1 where
    k1: "(k1, e2) \<in> set fs1" "k2 = k1 \<or> atOrUnder old k1 \<and> k2 = new @ drop (length old) k1"
    by blast
  from k1(1) dist have m: "map_of fs1 k1 = Some e2" by simp
  show ?thesis
  proof (cases "k2 = k1")
    case True
    with un k2 m show ?thesis by blast
  next
    case False
    with k1(2) have u: "atOrUnder old k1" and eq: "k2 = new @ drop (length old) k1" by auto
    from old u have "atOrUnder rk k1" by (rule atOrUnder_trans)
    moreover have "htmlNamed k1"
    proof (cases "drop (length old) k1 = []")
      case True
      with atOrUnder_append [OF u] have "k1 = old" by simp
      with True eq k2(2) names show ?thesis by simp
    next
      case False
      then have "nameOf k2 = nameOf (drop (length old) k1)"
        by (simp add: eq nameOf_append)
      also from False have "\<dots> = nameOf k1"
        by (auto simp: nameOf_def)
      finally show ?thesis using k2(2) by (simp add: htmlNamed_def)
    qed
    ultimately show ?thesis using un m by blast
  qed
qed

lemma renamed_wfKey:
  assumes "\<forall>k \<in> fst ` set fs1. wfKey k" and "wfKey new"
    and "k2 \<in> fst ` set (map (rekey old new) (filter (\<lambda>ke. fst ke \<noteq> new) fs1))"
  shows "wfKey k2"
proof -
  from assms(3) obtain ke where "ke \<in> set fs1" "k2 = fst (rekey old new ke)"
    by auto
  with assms(1,2) wfKey_drop [of "fst ke" "length old"] show ?thesis
    by (cases ke) (auto simp: rekey_def wfKey_def split: if_splits)
qed

text \<open>The walk over a file system whose documents do not refer to the source.\<close>

lemma WalkDir_unreferring:
  assumes wf: "\<forall>k \<in> fst ` set (files st). wfKey k" and rk: "wfKey rk"
    and un: "\<forall>k e. atOrUnder rk k \<and> htmlNamed k \<and> map_of (files st) k = Some e \<longrightarrow>
      unreferring lib f e"
  shows "fst (WalkDir cwd (absPath rk) (walkFn lib cwd f t) st) = st"
proof (cases "Stat (files st) cwd (absPath rk)")
  case (Inl e)
  then show ?thesis by (simp add: WalkDir_def walkFn_def)
next
  case (Inr info)
  have "callsAt (files st) (absPath rk) rk k = map toCall (keyCalls (files st) k)"
    if "k \<in> set (walkKeys (files st) rk)" for k
    using that wf by (intro callsAt_toCall) (auto simp: set_walkKeys)
  then have calls: "concat (map (callsAt (files st) (absPath rk) rk) (walkKeys (files st) rk)) =
      map toCall (concat (map (keyCalls (files st)) (walkKeys (files st) rk)))"
    by (simp add: map_concat cong: map_cong)
  have "\<forall>c \<in> set (concat (map (keyCalls (files st)) (walkKeys (files st) rk))).
      wfKey (fst c) \<and>
      (htmlNamed (fst c) \<longrightarrow> (\<forall>e. map_of (files st) (fst c) = Some e \<longrightarrow> unreferring lib f e))"
    using wf un by (auto simp: set_walkKeys keyCalls_def split: if_splits)
  from runCalls_unreferring [OF this] Inr rk show ?thesis
    by (simp add: WalkDir_def keyOf_absPath calls)
qed

lemma set_keyCalls: "fst ` set (concat (map (keyCalls fs) ks)) = set ks"
  by (induction ks) (auto simp: keyCalls_def)

lemma WalkDir_settles:
  assumes nt: "t \<notin> set (linkForms f)"
    and wf: "\<forall>k \<in> fst ` set (files st). wfKey k" and rk: "wfKey rk"
    and settled: "\<forall>k e. atOrUnder rk k \<and> htmlNamed k \<and> map_of (files st) k = Some e \<longrightarrow>
      settled lib f t e"
    and visited: "\<forall>k \<in> fst ` set (files st). atOrUnder rk k \<longrightarrow> listed (files st) rk k"
    and res: "WalkDir cwd (absPath rk) (walkFn lib cwd f t) st = (st1, Returns walkErr)"
  shows "map fst (files st1) = map fst (files st) \<and>
    (\<forall>k e. atOrUnder rk k \<and> htmlNamed k \<and> map_of (files st1) k = Some e \<longrightarrow> unreferring lib f e)"
proof (cases "Stat (files st) cwd (absPath rk)")
  case (Inl e)
  with res show ?thesis by (simp add: WalkDir_def walkFn_def)
next
  case (Inr info)
  let ?kcs = "concat (map (keyCalls (files st)) (walkKeys (files st) rk))"
  have "callsAt (files st) (absPath rk) rk k = map toCall (keyCalls (files st) k)"
    if "k \<in> set (walkKeys (files st) rk)" for k
    using that wf by (intro callsAt_toCall) (auto simp: set_walkKeys)
  then have calls: "concat (map (callsAt (files st) (absPath rk) rk) (walkKeys (files st) rk)) =
      map toCall ?kcs"
    by (simp add: map_concat cong: map_cong)
  with Inr rk res have st1: "st1 = fst (runCalls (walkFn lib cwd f t) (map toCall ?kcs) st)"
    by (simp add: WalkDir_def keyOf_absPath)
  have 1: "\<forall>c \<in> set ?kcs. wfKey (fst c) \<and> atOrUnder rk (fst c) \<and> fst c \<in> fst ` set (files st)"
    using wf by (auto simp: set_walkKeys keyCalls_def split: if_splits)
  have 3: "\<forall>k \<in> {}. \<forall>e. htmlNamed k \<and> map_of (files st) k = Some e \<longrightarrow> unreferring lib f e"
    by simp
  from runCalls_settles [OF nt 1 settled 3, of cwd] have
    keys: "map fst (files st1) = map fst (files st)" and
    un: "\<forall>k \<in> set (walkKeys (files st) rk). \<forall>e. htmlNamed k \<and> map_of (files st1) k = Some e \<longrightarrow>
      unreferring lib f e"
    unfolding st1 set_keyCalls by auto
  have "unreferring lib f e" if "atOrUnder rk k" "htmlNamed k" "map_of (files st1) k = Some e" for k e
  proof -
    from that(3) have "k \<in> fst ` set (files st1)"
      by (metis map_of_eq_None_iff option.distinct(1))
    with keys have "k \<in> fst ` set (files st)" by (metis set_map)
    with visited that(1) have "k \<in> set (walkKeys (files st) rk)"
      by (auto simp: set_walkKeys)
    with un that show ?thesis by blast
  qed
  with keys show ?thesis by blast
qed

text \<open>What a move that returns normally went through.\<close>

lemma walkAndRename_Returned:
  assumes "status (walkAndRename lib cwd root f t absFromPath absToPath st) = Returned"
  shows "\<exists>st1 walkErr.
    WalkDir cwd root (walkFn lib cwd f t) st = (st1, Returns walkErr) \<and>
    Rename (files st1) cwd absFromPath absToPath =
      Inr (files (walkAndRename lib cwd root f t absFromPath absToPath st))"
proof -
  obtain st1 r where w: "WalkDir cwd root (walkFn lib cwd f t) st = (st1, r)"
    by (cases "WalkDir cwd root (walkFn lib cwd f t) st")
  show ?thesis
  proof (cases r)
    case (Panics p)
    with w assms show ?thesis by (simp add: walkAndRename_def finish_def)
  next
    case (Returns walkErr)
    show ?thesis
    proof (cases "Rename (files st1) cwd absFromPath absToPath")
      case (Inl e)
      with w Returns assms show ?thesis by (simp add: walkAndRename_def finish_def)
    next
      case (Inr fs2)
      with w Returns show ?thesis by (simp add: walkAndRename_def finish_def)
    qed
  qed
qed

lemma mv_Returned:
  assumes root: "ZkRoot fs cwd cwd = Inr root"
    and ret: "status (mv lib fs (Inr cwd) fromPath toPath) = Returned"
  shows "\<exists>st1 walkErr.
    WalkDir cwd root
      (walkFn lib cwd (drop (length root) (Join [cwd, fromPath]))
         (TrimSuffix (drop (length root) (Join [cwd, toPath])) ''/index.html''))
      \<lparr>files = fs, written = []\<rparr> = (st1, Returns walkErr) \<and>
    Rename (files st1) cwd (Join [cwd, fromPath]) (Join [cwd, toPath]) =
      Inr (files (mv lib fs (Inr cwd) fromPath toPath))"
proof -
  have 1: "length root \<le> length (Join [cwd, fromPath])"
  proof (rule ccontr)
    assume "\<not> ?thesis"
    then have "status (mv lib fs (Inr cwd) fromPath toPath) \<noteq> Returned"
      by (simp add: mv_def root sliceFrom_def finish_def Let_def del: Join.simps)
    with ret show False by simp
  qed
  have 2: "length root \<le> length (Join [cwd, toPath])"
  proof (rule ccontr)
    assume "\<not> ?thesis"
    with 1 have "status (mv lib fs (Inr cwd) fromPath toPath) \<noteq> Returned"
      by (simp add: mv_def root sliceFrom_def finish_def Let_def del: Join.simps)
    with ret show False by simp
  qed
  have "mv lib fs (Inr cwd) fromPath toPath =
      walkAndRename lib cwd root (drop (length root) (Join [cwd, fromPath]))
        (TrimSuffix (drop (length root) (Join [cwd, toPath])) ''/index.html'')
        (Join [cwd, fromPath]) (Join [cwd, toPath]) \<lparr>files = fs, written = []\<rparr>"
  proof (cases "Stat fs cwd (Join [cwd, fromPath])")
    case (Inl e)
    show ?thesis
    proof (cases "IsNotExist e")
      case True
      with Inl 1 2 have "status (mv lib fs (Inr cwd) fromPath toPath) \<noteq> Returned"
        by (simp add: mv_def root sliceFrom_def finish_def Let_def del: Join.simps)
      with ret show ?thesis by simp
    next
      case False
      with Inl 1 2 show ?thesis
        by (simp add: mv_def root sliceFrom_def Let_def del: Join.simps)
    qed
  next
    case (Inr info)
    with 1 2 show ?thesis
      by (simp add: mv_def root sliceFrom_def Let_def del: Join.simps)
  qed
  with ret walkAndRename_Returned show ?thesis by metis
qed

section \<open>The walk, run a second time\<close>

text \<open>
  C9, as the claim states it, fails. The note \<^verbatim>\<open>/proj/notes/a.html\<close> is moved to
  \<^verbatim>\<open>/proj/notes/a\<close> in a project whose index links to it as \<^verbatim>\<open>/notes/a.html\<close>. The
  move sets the \<open>href\<close> to \<^verbatim>\<open>/notes/a\<close>, which is itself a link form of the source
  (the path without its extension). The walk run again with the same source and
  destination finds that \<open>href\<close>, sets \<^verbatim>\<open>foundReference\<close> and writes the index.
\<close>

theorem second_pass_writes_again:
  "status scenarioDrop = Returned \<and>
   contents (files scenarioDrop) ''/proj'' ''/proj/notes/a'' = Some noteBytes \<and>
   docHrefs scenarioLib (files scenarioDrop) ''/proj'' ''/proj/index.html'' =
     Some [Some ''/notes/a''] \<and>
   linkForms ''/notes/a.html'' = [''/notes/a.html'', ''/notes/a''] \<and>
   written (fst scenarioDropAgain) = [''/proj/index.html''] \<and>
   fst scenarioDropAgain \<noteq> \<lparr>files = files scenarioDrop, written = []\<rparr>"
  by code_simp

text \<open>
  C9, amended. Take a file system with one entry per key and well-formed names, and a
  move that returns normally, of a source under the root, such that: the destination
  string is not a link form of the source; every entry under the root whose name ends
  in \<^verbatim>\<open>.html\<close> is settled; the walk reaches every entry under the root (the
  directories above it can be read); and the destination is named \<^verbatim>\<open>.html\<close> only if
  the source is. Then the walk run a second time, over the file system the move left,
  with the same source and destination strings, calls \<^verbatim>\<open>ioutil.WriteFile\<close> not once
  and leaves every file as it is, and no entry under the root that is named \<^verbatim>\<open>.html\<close>
  holds a document that refers to the source.
\<close>

theorem second_pass_changes_nothing:
  assumes keys: "distinct (map fst fs)" "list_all wfKey (map fst fs)"
    and root: "ZkRoot fs cwd cwd = Inr (absPath rk)"
    and moved: "status (mv lib fs (Inr cwd) fromPath toPath) = Returned"
    and f: "f = drop (length (absPath rk)) (Join [cwd, fromPath])"
    and t: "t = TrimSuffix (drop (length (absPath rk)) (Join [cwd, toPath])) ''/index.html''"
    and nt: "t \<notin> set (linkForms f)"
    and settled:
      "list_all (\<lambda>ke. atOrUnder rk (fst ke) \<and> htmlNamed (fst ke) \<longrightarrow> settled lib f t (snd ke)) fs"
    and visited: "list_all (\<lambda>ke. atOrUnder rk (fst ke) \<longrightarrow> listed fs rk (fst ke)) fs"
    and src: "keyOf cwd (Join [cwd, fromPath]) = Some old" "atOrUnder rk old"
    and dst: "keyOf cwd (Join [cwd, toPath]) = Some new" "htmlNamed new \<longrightarrow> htmlNamed old"
  shows "fst (WalkDir cwd (absPath rk) (walkFn lib cwd f t)
            \<lparr>files = files (mv lib fs (Inr cwd) fromPath toPath), written = []\<rparr>) =
           \<lparr>files = files (mv lib fs (Inr cwd) fromPath toPath), written = []\<rparr> \<and>
         list_all (\<lambda>ke. atOrUnder rk (fst ke) \<and> htmlNamed (fst ke) \<longrightarrow> unreferring lib f (snd ke))
           (files (mv lib fs (Inr cwd) fromPath toPath))"
proof -
  let ?fs2 = "files (mv lib fs (Inr cwd) fromPath toPath)"
  from mv_Returned [OF root moved] obtain st1 walkErr where
    walk: "WalkDir cwd (absPath rk) (walkFn lib cwd f t) \<lparr>files = fs, written = []\<rparr> =
      (st1, Returns walkErr)" and
    ren: "Rename (files st1) cwd (Join [cwd, fromPath]) (Join [cwd, toPath]) = Inr ?fs2"
    unfolding f t by blast
  from src have rk: "wfKey rk"
    by (blast intro: wfKey_atOrUnder keyOf_wfKey)
  from keys(2) have wf: "\<forall>k \<in> fst ` set (files \<lparr>files = fs, written = []\<rparr>). wfKey k"
    by (auto simp: list_all_iff)
  from settled have s: "\<forall>k e. atOrUnder rk k \<and> htmlNamed k \<and>
      map_of (files \<lparr>files = fs, written = []\<rparr>) k = Some e \<longrightarrow> settled lib f t e"
    by (auto simp: list_all_iff dest!: map_of_SomeD)
  from visited have v: "\<forall>k \<in> fst ` set (files \<lparr>files = fs, written = []\<rparr>).
      atOrUnder rk k \<longrightarrow> listed (files \<lparr>files = fs, written = []\<rparr>) rk k"
    by (auto simp: list_all_iff)
  from WalkDir_settles [OF nt wf rk s v walk] have
    keys1: "map fst (files st1) = map fst fs" and
    un1: "\<forall>k e. atOrUnder rk k \<and> htmlNamed k \<and> map_of (files st1) k = Some e \<longrightarrow> unreferring lib f e"
    by simp_all
  from keys1 keys have dist1: "distinct (map fst (files st1))"
    and wf1: "\<forall>k \<in> fst ` set (files st1). wfKey k"
    by (simp, metis list_all_iff set_map)
  from Rename_Inr [OF ren] src(1) dst(1) have
    fs2: "?fs2 = files st1 \<or>
      ?fs2 = map (rekey old new) (filter (\<lambda>ke. fst ke \<noteq> new) (files st1))"
    by auto
  have un2: "unreferring lib f e" if "atOrUnder rk k" "htmlNamed k" "(k, e) \<in> set ?fs2" for k e
    using fs2
  proof
    assume "?fs2 = files st1"
    with that dist1 un1 show ?thesis by simp
  next
    assume "?fs2 = map (rekey old new) (filter (\<lambda>ke. fst ke \<noteq> new) (files st1))"
    with that renamed_unreferring [OF dist1 un1 src(2) dst(2), of k e] show ?thesis
      by simp
  qed
  have wf2: "wfKey k" if "k \<in> fst ` set ?fs2" for k
    using fs2
  proof
    assume "?fs2 = files st1"
    with that wf1 show ?thesis by auto
  next
    assume "?fs2 = map (rekey old new) (filter (\<lambda>ke. fst ke \<noteq> new) (files st1))"
    with that renamed_wfKey [OF wf1 keyOf_wfKey [OF dst(1)], of k old] show ?thesis
      by simp
  qed
  have "fst (WalkDir cwd (absPath rk) (walkFn lib cwd f t) \<lparr>files = ?fs2, written = []\<rparr>) =
      \<lparr>files = ?fs2, written = []\<rparr>"
    using wf2 un2 by (intro WalkDir_unreferring rk) (auto dest!: map_of_SomeD)
  moreover have "list_all (\<lambda>ke. atOrUnder rk (fst ke) \<and> htmlNamed (fst ke) \<longrightarrow>
      unreferring lib f (snd ke)) ?fs2"
    using un2 by (auto simp: list_all_iff)
  ultimately show ?thesis by blast
qed

theorem second_pass_changes_nothing_witness:
  "distinct (map fst rootedProject) \<and>
   list_all wfKey (map fst rootedProject) \<and>
   ZkRoot rootedProject ''/proj'' ''/proj'' = Inr (absPath [''proj'']) \<and>
   status scenarioA' = Returned \<and>
   ''/archive/a.html'' \<notin> set (linkForms ''/notes/a.html'') \<and>
   list_all (\<lambda>ke. atOrUnder [''proj''] (fst ke) \<and> htmlNamed (fst ke) \<longrightarrow>
       settled scenarioLib ''/notes/a.html'' ''/archive/a.html'' (snd ke)) rootedProject \<and>
   list_all (\<lambda>ke. atOrUnder [''proj''] (fst ke) \<longrightarrow> listed rootedProject [''proj''] (fst ke))
     rootedProject \<and>
   htmlNamed [''proj'', ''notes'', ''a.html''] \<and>
   fst (WalkDir ''/proj'' (absPath [''proj''])
          (walkFn scenarioLib ''/proj'' ''/notes/a.html'' ''/archive/a.html'')
          \<lparr>files = files scenarioA', written = []\<rparr>) =
     \<lparr>files = files scenarioA', written = []\<rparr>"
proof -
  have k1: "distinct (map fst rootedProject)"
    by code_simp
  have k2: "list_all wfKey (map fst rootedProject)"
    by code_simp
  have r: "ZkRoot rootedProject ''/proj'' ''/proj'' = Inr (absPath [''proj''])"
    by code_simp
  have m: "status (mv scenarioLib rootedProject (Inr ''/proj'') ''notes/a.html''
      ''archive/a.html'') = Returned"
    by code_simp
  have f: "''/notes/a.html'' = drop (length (absPath [''proj''])) (Join [''/proj'', ''notes/a.html''])"
    by code_simp
  have t: "''/archive/a.html'' =
      TrimSuffix (drop (length (absPath [''proj''])) (Join [''/proj'', ''archive/a.html'']))
        ''/index.html''"
    by code_simp
  have nt: "''/archive/a.html'' \<notin> set (linkForms ''/notes/a.html'')"
    by code_simp
  have s: "list_all (\<lambda>ke. atOrUnder [''proj''] (fst ke) \<and> htmlNamed (fst ke) \<longrightarrow>
      settled scenarioLib ''/notes/a.html'' ''/archive/a.html'' (snd ke)) rootedProject"
    by code_simp
  have v: "list_all (\<lambda>ke. atOrUnder [''proj''] (fst ke) \<longrightarrow> listed rootedProject [''proj''] (fst ke))
      rootedProject"
    by code_simp
  have o1: "keyOf ''/proj'' (Join [''/proj'', ''notes/a.html'']) = Some [''proj'', ''notes'', ''a.html'']"
    by code_simp
  have o2: "atOrUnder [''proj''] [''proj'', ''notes'', ''a.html'']"
    by code_simp
  have n1: "keyOf ''/proj'' (Join [''/proj'', ''archive/a.html'']) =
      Some [''proj'', ''archive'', ''a.html'']"
    by code_simp
  have h: "htmlNamed [''proj'', ''notes'', ''a.html'']"
    by code_simp
  then have n2: "htmlNamed [''proj'', ''archive'', ''a.html''] \<longrightarrow>
      htmlNamed [''proj'', ''notes'', ''a.html'']"
    by simp
  from second_pass_changes_nothing [OF k1 k2 r m f t nt s v o1 o2 n1 n2]
    k1 k2 r m nt s v h
  show ?thesis by (simp add: scenarioA'_def)
qed

end
